theory Spec2Isabelle
  imports Main "HOL-Library.Sublist"
begin

section \<open>Data of the OVN route-agent handler\<close>

text \<open>
  The embedded source is \<^verbatim>\<open>pkg/routeagent_driver/handlers/ovn/uninstall.go\<close>, which holds the
  uninstall path (\<^verbatim>\<open>Stop\<close>, \<^verbatim>\<open>cleanupRoutes\<close>, \<^verbatim>\<open>flushAndDeleteIPTableChains\<close>) and the
  handler's event methods (\<^verbatim>\<open>LocalEndpointCreated\<close>, \<^verbatim>\<open>RemoteEndpointCreated\<close>,
  \<^verbatim>\<open>RemoteEndpointUpdated\<close>, \<^verbatim>\<open>RemoteEndpointRemoved\<close>, \<^verbatim>\<open>TransitionToNonGateway\<close>,
  \<^verbatim>\<open>TransitionToGateway\<close>).

  Of \<^verbatim>\<open>submV1.Endpoint\<close> the code reads the name, the backend and the subnets; of
  \<^verbatim>\<open>netlink.Rule\<close> it reads the table and passes the whole rule on; a \<^verbatim>\<open>net.Interface\<close> is
  only stored.
\<close>

record EndpointSpec =
  Backend :: string
  Subnets :: "string list"

record Endpoint =
  Name :: string
  Spec :: EndpointSpec

record Rule =
  Priority :: int
  Table :: int

datatype Interface = Interface (Index: int) (IfName: string)

text \<open>
  Go errors are values. \<^verbatim>\<open>errors.Wrapf(err, format, args...)\<close> keeps the cause, the format
  string and the arguments; formatting itself is not modelled.
\<close>

datatype wraparg = WStr string | WRule Rule

datatype error = Error string | Wrapf error string "wraparg list"

text \<open>
  A log argument is a string, an integer, an error value, the string \<^verbatim>\<open>err.Error()\<close> of an
  error, or an endpoint.
\<close>

datatype logarg = LStr string | LInt int | LErr error | LErrorString error | LEndpoint Endpoint

datatype logline =
    Infof string "logarg list"
  | Errorf string "logarg list"
  | LoggerErrorf error string "logarg list"

text \<open>
  The constants of other packages that the file refers to (\<^verbatim>\<open>constants.*\<close>,
  \<^verbatim>\<open>wireguard.DefaultDeviceName\<close>, \<^verbatim>\<open>netlink.FAMILY_V4\<close>) and the package-level names
  \<^verbatim>\<open>ovnK8sSubmarinerBridge\<close>, \<^verbatim>\<open>ovnK8sSubmarinerInterface\<close> and
  \<^verbatim>\<open>forwardingSubmarinerFWDChain\<close> are declared outside the embedded file. Their values are
  parameters: every theorem holds for all of them.
\<close>

record constants =
  ovnK8sSubmarinerBridge :: string
  ovnK8sSubmarinerInterface :: string
  RouteAgentInterClusterNetworkTableID :: int
  RouteAgentHostNetworkTableID :: int
  FilterTable :: string
  ForwardChain :: string
  forwardingSubmarinerFWDChain :: string
  NATTable :: string
  PostRoutingChain :: string
  SmPostRoutingChain :: string
  DefaultDeviceName :: string
  FAMILY_V4 :: int

text \<open>
  A step is something the handler does that is visible outside the function running: taking
  or releasing \<^verbatim>\<open>ovn.mutex\<close>, a write to one of the three mutable fields of the handler, or
  a call into a collaborator (Open vSwitch, netlink, iptables, the \<^verbatim>\<open>net\<close> package, and the
  handler's own dataplane methods, whose bodies are in other files of the package).
\<close>

datatype step =
    MutexLock
  | MutexUnlock
  | SetRemoteEndpoint string Endpoint
  | DeleteRemoteEndpoint string
  | SetIsGateway bool
  | SetCableRoutingInterface Interface
  | DelInternalPort string string
  | DelBridge string
  | RuleList int
  | RuleDel Rule
  | FlushRouteTable int
  | ClearChain string string
  | Delete string string "string list"
  | DeleteChain string string
  | InterfaceByName string
  | GetDefaultGatewayInterface
  | updateHostNetworkDataplane
  | updateGatewayDataplane
  | cleanupGatewayDataplane
  | addNoMasqueradeIPTables string
  | removeNoMasqueradeIPTables string

text \<open>
  The fields of \<^verbatim>\<open>Handler\<close> that the embedded methods read or write. \<^verbatim>\<open>remoteEndpoints\<close> is a
  Go map from endpoint name to endpoint; \<^verbatim>\<open>cableRoutingInterface\<close> is a pointer, \<open>None\<close> when
  nil.
\<close>

record Handler =
  ServiceCIDR :: "string list"
  ClusterCIDR :: "string list"
  cableRoutingInterface :: "Interface option"
  remoteEndpoints :: "string \<rightharpoonup> Endpoint"
  isGateway :: bool

text \<open>
  The node is the handler together with what it has done so far: \<open>trace\<close> lists the steps in
  program order, \<open>logged\<close> the log lines.
\<close>

record node =
  handler :: Handler
  trace :: "step list"
  logged :: "logline list"

text \<open>
  The collaborators are not in the embedded file, so what they return is a parameter. Each
  answer may depend on the handler (the dataplane methods have it as receiver) and on all
  the steps taken before the call, so that the same call can succeed once and fail later.
  \<^verbatim>\<open>cidr.OverlappingSubnets\<close> is a function of its three arguments.

  The dataplane methods \<^verbatim>\<open>updateHostNetworkDataplane\<close>, \<^verbatim>\<open>updateGatewayDataplane\<close>,
  \<^verbatim>\<open>cleanupGatewayDataplane\<close>, \<^verbatim>\<open>addNoMasqueradeIPTables\<close> and
  \<^verbatim>\<open>removeNoMasqueradeIPTables\<close> are taken to read the handler and to act on the host only:
  a call does not write \<^verbatim>\<open>remoteEndpoints\<close>, \<^verbatim>\<open>isGateway\<close> or \<^verbatim>\<open>cableRoutingInterface\<close>.
\<close>

record env =
  OverlappingSubnets :: "string list \<Rightarrow> string list \<Rightarrow> string list \<Rightarrow> error option"
  answer :: "Handler \<Rightarrow> step list \<Rightarrow> step \<Rightarrow> error option"
  RuleList_answer :: "step list \<Rightarrow> error + Rule list"
  InterfaceByName_answer :: "step list \<Rightarrow> string \<Rightarrow> error + Interface"
  GetDefaultGatewayInterface_answer :: "step list \<Rightarrow> error + Interface"

text \<open>\<^verbatim>\<open>LocalEndpointCreated\<close> either returns or, through \<^verbatim>\<open>logger.Fatalf\<close>, ends the process.\<close>

datatype outcome = Returned "error option" | Fatal string "logarg list"

section \<open>Primitive steps\<close>

definition record_step :: "step \<Rightarrow> node \<Rightarrow> node" where
  "record_step c s = s\<lparr>trace := trace s @ [c]\<rparr>"

definition call :: "env \<Rightarrow> step \<Rightarrow> node \<Rightarrow> node \<times> error option" where
  "call E c s = (record_step c s, answer E (handler s) (trace s) c)"

definition klog :: "logline \<Rightarrow> node \<Rightarrow> node" where
  "klog l s = s\<lparr>logged := logged s @ [l]\<rparr>"

text \<open>
  The statement \<^verbatim>\<open>err = f(...); if err != nil { klog.Errorf(...) }\<close>: the call is made, a
  failure is logged, and execution goes on either way.
\<close>

definition attempt :: "env \<Rightarrow> step \<Rightarrow> (error \<Rightarrow> logline) \<Rightarrow> node \<Rightarrow> node" where
  "attempt E c onError s =
     (case call E c s of
        (s1, None) \<Rightarrow> s1
      | (s1, Some err) \<Rightarrow> klog (onError err) s1)"

text \<open>
  \<^verbatim>\<open>ovn.mutex.Lock(); defer ovn.mutex.Unlock()\<close> around the rest of a method: the unlock runs
  on every return path. Blocking on a mutex held by another goroutine is not modelled.
\<close>

definition locked :: "(node \<Rightarrow> node \<times> 'a) \<Rightarrow> node \<Rightarrow> node \<times> 'a" where
  "locked body s =
     (case body (record_step MutexLock s) of
        (s1, r) \<Rightarrow> (record_step MutexUnlock s1, r))"

definition setRemoteEndpoint :: "string \<Rightarrow> Endpoint \<Rightarrow> node \<Rightarrow> node" where
  "setRemoteEndpoint name endpoint s =
     record_step (SetRemoteEndpoint name endpoint)
       (s\<lparr>handler := (handler s)\<lparr>remoteEndpoints := (remoteEndpoints (handler s))(name \<mapsto> endpoint)\<rparr>\<rparr>)"

definition deleteRemoteEndpoint :: "string \<Rightarrow> node \<Rightarrow> node" where
  "deleteRemoteEndpoint name s =
     record_step (DeleteRemoteEndpoint name)
       (s\<lparr>handler := (handler s)\<lparr>remoteEndpoints := (remoteEndpoints (handler s))(name := None)\<rparr>\<rparr>)"

definition setIsGateway :: "bool \<Rightarrow> node \<Rightarrow> node" where
  "setIsGateway b s = record_step (SetIsGateway b) (s\<lparr>handler := (handler s)\<lparr>isGateway := b\<rparr>\<rparr>)"

definition setCableRoutingInterface :: "Interface \<Rightarrow> node \<Rightarrow> node" where
  "setCableRoutingInterface i s =
     record_step (SetCableRoutingInterface i)
       (s\<lparr>handler := (handler s)\<lparr>cableRoutingInterface := Some i\<rparr>\<rparr>)"

section \<open>Uninstall\<close>

text \<open>
  The loop of \<^verbatim>\<open>cleanupRoutes\<close> over the listed rules, in slice order: a rule of one of the two
  tables is deleted; the first failing deletion returns its wrapped error from the function.
\<close>

fun deleteRules :: "constants \<Rightarrow> env \<Rightarrow> Rule list \<Rightarrow> node \<Rightarrow> node \<times> error option" where
  "deleteRules K E [] s = (s, None)"
| "deleteRules K E (r # rules) s =
     (if Table r = RouteAgentInterClusterNetworkTableID K \<or> Table r = RouteAgentHostNetworkTableID K
      then (case call E (RuleDel r) s of
              (s1, Some err) \<Rightarrow> (s1, Some (Wrapf err ''error deleting the rule %v'' [WRule r]))
            | (s1, None) \<Rightarrow> deleteRules K E rules s1)
      else deleteRules K E rules s)"

text \<open>
  \<^verbatim>\<open>netlink.RuleList\<close>, \<^verbatim>\<open>net.InterfaceByName\<close> and \<^verbatim>\<open>netlink.GetDefaultGatewayInterface\<close> return
  a value or an error.
\<close>

definition RuleList_call :: "env \<Rightarrow> int \<Rightarrow> node \<Rightarrow> node \<times> (error + Rule list)" where
  "RuleList_call E family s = (record_step (RuleList family) s, RuleList_answer E (trace s))"

definition cleanupRoutes :: "constants \<Rightarrow> env \<Rightarrow> node \<Rightarrow> node \<times> error option" where
  "cleanupRoutes K E s =
     (case RuleList_call E (FAMILY_V4 K) s of
        (s1, Inl err) \<Rightarrow> (s1, Some (Wrapf err ''error listing rules'' []))
      | (s1, Inr rules) \<Rightarrow> deleteRules K E rules s1)"

definition flushAndDeleteIPTableChains :: "env \<Rightarrow> string \<Rightarrow> string \<Rightarrow> string \<Rightarrow> node \<Rightarrow> node" where
  "flushAndDeleteIPTableChains E table tableChain submarinerChain s =
     (let s = klog (Infof ''Flushing iptable entries in %q chain of %q table''
                      [LStr submarinerChain, LStr table]) s;
          s = attempt E (ClearChain table submarinerChain)
                (\<lambda>err. Errorf ''Error flushing iptables chain %q of %q table: %v''
                          [LStr submarinerChain, LStr table, LErr err]) s;
          s = klog (Infof ''Deleting iptable entry in %q chain of %q table''
                      [LStr tableChain, LStr table]) s;
          s = attempt E (Delete table tableChain [''-j'', submarinerChain])
                (\<lambda>err. Errorf ''Error deleting iptables rule from %q chain: %v''
                          [LStr tableChain, LErr err]) s;
          s = klog (Infof ''Deleting iptable %q chain of %q table''
                      [LStr submarinerChain, LStr table]) s;
          s = attempt E (DeleteChain table submarinerChain)
                (\<lambda>err. Errorf ''Error deleting iptable chain %q of table %q: %v''
                          [LStr submarinerChain, LStr table, LErr err]) s
      in s)"

definition Stop :: "constants \<Rightarrow> env \<Rightarrow> bool \<Rightarrow> node \<Rightarrow> node \<times> error option" where
  "Stop K E uninstall s =
     (if \<not> uninstall then (s, None)
      else
        let s = klog (Infof ''Uninstalling OVN components from the node'' []) s;
            s = attempt E (DelInternalPort (ovnK8sSubmarinerBridge K) (ovnK8sSubmarinerInterface K))
                  (\<lambda>err. Errorf ''Error deleting Submariner port %q due to %v''
                            [LStr (ovnK8sSubmarinerInterface K), LErr err]) s;
            s = attempt E (DelBridge (ovnK8sSubmarinerBridge K))
                  (\<lambda>err. Errorf ''Error deleting Submariner bridge %q due to %v''
                            [LStr (ovnK8sSubmarinerBridge K), LErr err]) s;
            s = (case cleanupRoutes K E s of
                   (s1, None) \<Rightarrow> s1
                 | (s1, Some err) \<Rightarrow> klog (Errorf ''Error cleaning the routes %v'' [LErr err]) s1);
            s = attempt E (FlushRouteTable (RouteAgentInterClusterNetworkTableID K))
                  (\<lambda>err. Errorf ''Flushing routing table %d returned error: %v''
                            [LInt (RouteAgentInterClusterNetworkTableID K), LErr err]) s;
            s = attempt E (FlushRouteTable (RouteAgentHostNetworkTableID K))
                  (\<lambda>err. Errorf ''Flushing routing table %d returned error: %v''
                            [LInt (RouteAgentHostNetworkTableID K), LErr err]) s;
            s = flushAndDeleteIPTableChains E (FilterTable K) (ForwardChain K)
                  (forwardingSubmarinerFWDChain K) s;
            s = flushAndDeleteIPTableChains E (NATTable K) (PostRoutingChain K)
                  (SmPostRoutingChain K) s
        in (s, None))"

section \<open>Endpoint events and role transitions\<close>

text \<open>
  The inner loop \<^verbatim>\<open>for _, subnet := range endpoint.Spec.Subnets\<close> of the four methods that
  manage the no-masquerade rules: \<open>op\<close> is \<^verbatim>\<open>addNoMasqueradeIPTables\<close> or
  \<^verbatim>\<open>removeNoMasqueradeIPTables\<close>, \<open>msg\<close> the format of the wrapped error. The first failure
  returns from the method.
\<close>

fun rangeSubnets :: "env \<Rightarrow> (string \<Rightarrow> step) \<Rightarrow> string \<Rightarrow> string list \<Rightarrow> node \<Rightarrow> node \<times> error option" where
  "rangeSubnets E op msg [] s = (s, None)"
| "rangeSubnets E op msg (subnet # subnets) s =
     (case call E (op subnet) s of
        (s1, Some err) \<Rightarrow> (s1, Some (Wrapf err msg [WStr subnet]))
      | (s1, None) \<Rightarrow> rangeSubnets E op msg subnets s1)"

text \<open>
  The outer loop \<^verbatim>\<open>for _, endpoint := range ovn.remoteEndpoints\<close> of the two transitions. Go
  visits every entry of a map once, in an order it does not specify: \<open>names\<close> is the order of
  the keys in this run. A name that is not a key has no entry to visit.
\<close>

fun rangeEndpoints :: "env \<Rightarrow> (string \<Rightarrow> step) \<Rightarrow> string \<Rightarrow> string list \<Rightarrow> node \<Rightarrow> node \<times> error option" where
  "rangeEndpoints E op msg [] s = (s, None)"
| "rangeEndpoints E op msg (name # names) s =
     (case remoteEndpoints (handler s) name of
        None \<Rightarrow> rangeEndpoints E op msg names s
      | Some endpoint \<Rightarrow>
          (case rangeSubnets E op msg (Subnets (Spec endpoint)) s of
             (s1, Some err) \<Rightarrow> (s1, Some err)
           | (s1, None) \<Rightarrow> rangeEndpoints E op msg names s1))"

definition InterfaceByName_call :: "env \<Rightarrow> string \<Rightarrow> node \<Rightarrow> node \<times> (error + Interface)" where
  "InterfaceByName_call E name s =
     (record_step (InterfaceByName name) s, InterfaceByName_answer E (trace s) name)"

definition GetDefaultGatewayInterface_call :: "env \<Rightarrow> node \<Rightarrow> node \<times> (error + Interface)" where
  "GetDefaultGatewayInterface_call E s =
     (record_step GetDefaultGatewayInterface s, GetDefaultGatewayInterface_answer E (trace s))"

definition LocalEndpointCreated :: "constants \<Rightarrow> env \<Rightarrow> Endpoint \<Rightarrow> node \<Rightarrow> node \<times> outcome" where
  "LocalEndpointCreated K E endpoint s =
     (case (if Backend (Spec endpoint) = ''wireguard''
            then (case InterfaceByName_call E (DefaultDeviceName K) s of
                    (s1, Inl err) \<Rightarrow>
                      (s1, Inl (Returned (Some (Wrapf err ''Wireguard interface %s not found on the node''
                                                  [WStr (DefaultDeviceName K)]))))
                  | (s1, Inr routingInterface) \<Rightarrow> (s1, Inr routingInterface))
            else (case GetDefaultGatewayInterface_call E s of
                    (s1, Inl err) \<Rightarrow>
                      (s1, Inl (Fatal ''Unable to find the default interface on host: %s'' [LErrorString err]))
                  | (s1, Inr routingInterface) \<Rightarrow> (s1, Inr routingInterface)))
      of
        (s1, Inl stopped) \<Rightarrow> (s1, stopped)
      | (s1, Inr routingInterface) \<Rightarrow>
          locked (\<lambda>s. (setCableRoutingInterface routingInterface s, Returned None)) s1)"

definition RemoteEndpointCreated :: "env \<Rightarrow> Endpoint \<Rightarrow> node \<Rightarrow> node \<times> error option" where
  "RemoteEndpointCreated E endpoint s =
     (case OverlappingSubnets E (ServiceCIDR (handler s)) (ClusterCIDR (handler s))
             (Subnets (Spec endpoint)) of
        Some err \<Rightarrow>
          (klog (LoggerErrorf err ''overlappingSubnets for new remote %#v returned error''
                   [LEndpoint endpoint]) s, None)
      | None \<Rightarrow>
          locked (\<lambda>s.
            let s = setRemoteEndpoint (Name endpoint) endpoint s in
            case call E updateHostNetworkDataplane s of
              (s, Some err) \<Rightarrow> (s, Some (Wrapf err ''updateHostNetworkDataplane returned error'' []))
            | (s, None) \<Rightarrow>
                if isGateway (handler s)
                then (case rangeSubnets E addNoMasqueradeIPTables
                             ''error adding no-masquerade rules for subnet %q''
                             (Subnets (Spec endpoint)) s of
                        (s, Some err) \<Rightarrow> (s, Some err)
                      | (s, None) \<Rightarrow> call E updateGatewayDataplane s)
                else (s, None)) s)"

definition RemoteEndpointUpdated :: "env \<Rightarrow> Endpoint \<Rightarrow> node \<Rightarrow> node \<times> error option" where
  "RemoteEndpointUpdated E endpoint s =
     (case OverlappingSubnets E (ServiceCIDR (handler s)) (ClusterCIDR (handler s))
             (Subnets (Spec endpoint)) of
        Some err \<Rightarrow>
          (klog (LoggerErrorf err ''overlappingSubnets for new remote %#v returned error''
                   [LEndpoint endpoint]) s, None)
      | None \<Rightarrow>
          locked (\<lambda>s.
            let s = setRemoteEndpoint (Name endpoint) endpoint s in
            case call E updateHostNetworkDataplane s of
              (s, Some err) \<Rightarrow> (s, Some (Wrapf err ''updateHostNetworkDataplane returned error'' []))
            | (s, None) \<Rightarrow>
                if isGateway (handler s)
                then call E updateGatewayDataplane s
                else (s, None)) s)"

definition RemoteEndpointRemoved :: "env \<Rightarrow> Endpoint \<Rightarrow> node \<Rightarrow> node \<times> error option" where
  "RemoteEndpointRemoved E endpoint s =
     locked (\<lambda>s.
       let s = deleteRemoteEndpoint (Name endpoint) s in
       case call E updateHostNetworkDataplane s of
         (s, Some err) \<Rightarrow> (s, Some (Wrapf err ''updateHostNetworkDataplane returned error'' []))
       | (s, None) \<Rightarrow>
           if isGateway (handler s)
           then (case rangeSubnets E removeNoMasqueradeIPTables
                        ''error removing no-masquerade rules for subnet %q''
                        (Subnets (Spec endpoint)) s of
                   (s, Some err) \<Rightarrow> (s, Some err)
                 | (s, None) \<Rightarrow> call E updateGatewayDataplane s)
           else (s, None)) s"

definition TransitionToNonGateway :: "env \<Rightarrow> string list \<Rightarrow> node \<Rightarrow> node \<times> error option" where
  "TransitionToNonGateway E names s =
     locked (\<lambda>s.
       let s = setIsGateway False s in
       case rangeEndpoints E removeNoMasqueradeIPTables
              ''error removing no-masquerade rules for subnet %q'' names s of
         (s, Some err) \<Rightarrow> (s, Some err)
       | (s, None) \<Rightarrow> call E cleanupGatewayDataplane s) s"

definition TransitionToGateway :: "env \<Rightarrow> string list \<Rightarrow> node \<Rightarrow> node \<times> error option" where
  "TransitionToGateway E names s =
     locked (\<lambda>s.
       let s = setIsGateway True s in
       case rangeEndpoints E addNoMasqueradeIPTables
              ''error adding no-masquerade rules for subnet %q'' names s of
         (s, Some err) \<Rightarrow> (s, Some err)
       | (s, None) \<Rightarrow> call E updateGatewayDataplane s) s"

section \<open>Notions used in the statements\<close>

text \<open>The listed rules that \<^verbatim>\<open>cleanupRoutes\<close> tries to delete: those of the two reserved tables.\<close>

definition matching :: "constants \<Rightarrow> Rule list \<Rightarrow> Rule list" where
  "matching K rules =
     filter (\<lambda>r. Table r = RouteAgentInterClusterNetworkTableID K \<or>
                  Table r = RouteAgentHostNetworkTableID K) rules"

text \<open>
  The node when \<^verbatim>\<open>Stop(true)\<close> reaches its call of \<^verbatim>\<open>cleanupRoutes\<close>: the first log line
  is written and the two Open vSwitch deletions have been attempted.
\<close>

definition beforeCleanupRoutes :: "constants \<Rightarrow> env \<Rightarrow> node \<Rightarrow> node" where
  "beforeCleanupRoutes K E s =
     attempt E (DelBridge (ovnK8sSubmarinerBridge K))
       (\<lambda>err. Errorf ''Error deleting Submariner bridge %q due to %v''
                 [LStr (ovnK8sSubmarinerBridge K), LErr err])
       (attempt E (DelInternalPort (ovnK8sSubmarinerBridge K) (ovnK8sSubmarinerInterface K))
          (\<lambda>err. Errorf ''Error deleting Submariner port %q due to %v''
                    [LStr (ovnK8sSubmarinerInterface K), LErr err])
          (klog (Infof ''Uninstalling OVN components from the node'' []) s))"

text \<open>
  The no-masquerade operations on every subnet of every endpoint of the map \<open>m\<close>, the
  endpoints taken in the order \<open>names\<close> and the subnets of each in slice order.
\<close>

definition natOps :: "(string \<Rightarrow> step) \<Rightarrow> (string \<rightharpoonup> Endpoint) \<Rightarrow> string list \<Rightarrow> step list" where
  "natOps op m names =
     concat (map (\<lambda>name. case m name of
                            None \<Rightarrow> []
                          | Some endpoint \<Rightarrow> map op (Subnets (Spec endpoint))) names)"

text \<open>
  Every call of the list \<open>cs\<close>, made in this order by a handler with fields \<open>h\<close> after the
  steps \<open>tr\<close>, is answered with nil.
\<close>

fun allSucceed :: "env \<Rightarrow> Handler \<Rightarrow> step list \<Rightarrow> step list \<Rightarrow> bool" where
  "allSucceed E h tr [] = True"
| "allSucceed E h tr (c # cs) = (answer E h tr c = None \<and> allSucceed E h (tr @ [c]) cs)"

text \<open>
  The steps of \<^verbatim>\<open>Stop(true)\<close> before its call of \<^verbatim>\<open>cleanupRoutes\<close> and the steps after it.
\<close>

definition stepsBeforeCleanupRoutes :: "constants \<Rightarrow> step list" where
  "stepsBeforeCleanupRoutes K =
     [DelInternalPort (ovnK8sSubmarinerBridge K) (ovnK8sSubmarinerInterface K),
      DelBridge (ovnK8sSubmarinerBridge K)]"

definition stepsAfterCleanupRoutes :: "constants \<Rightarrow> step list" where
  "stepsAfterCleanupRoutes K =
     [FlushRouteTable (RouteAgentInterClusterNetworkTableID K),
      FlushRouteTable (RouteAgentHostNetworkTableID K),
      ClearChain (FilterTable K) (forwardingSubmarinerFWDChain K),
      Delete (FilterTable K) (ForwardChain K) [''-j'', forwardingSubmarinerFWDChain K],
      DeleteChain (FilterTable K) (forwardingSubmarinerFWDChain K),
      ClearChain (NATTable K) (SmPostRoutingChain K),
      Delete (NATTable K) (PostRoutingChain K) [''-j'', SmPostRoutingChain K],
      DeleteChain (NATTable K) (SmPostRoutingChain K)]"

section \<open>Sample inputs\<close>

text \<open>Sample values for the constants, used only where a statement is evaluated.\<close>

definition K0 :: constants where
  "K0 = \<lparr>ovnK8sSubmarinerBridge = ''br-submariner'',
          ovnK8sSubmarinerInterface = ''ovn-k8s-sub0'',
          RouteAgentInterClusterNetworkTableID = 149,
          RouteAgentHostNetworkTableID = 150,
          FilterTable = ''filter'',
          ForwardChain = ''FORWARD'',
          forwardingSubmarinerFWDChain = ''SUBMARINER-FWD'',
          NATTable = ''nat'',
          PostRoutingChain = ''POSTROUTING'',
          SmPostRoutingChain = ''SUBMARINER-POSTROUTING'',
          DefaultDeviceName = ''submariner'',
          FAMILY_V4 = 2\<rparr>"

definition rule1 :: Rule where "rule1 = \<lparr>Priority = 100, Table = 149\<rparr>"

definition rule2 :: Rule where "rule2 = \<lparr>Priority = 101, Table = 150\<rparr>"

definition rule3 :: Rule where "rule3 = \<lparr>Priority = 32766, Table = 254\<rparr>"

definition node0 :: node where
  "node0 = \<lparr>handler = \<lparr>ServiceCIDR = [''100.64.0.0/16''], ClusterCIDR = [''10.0.0.0/8''],
                         cableRoutingInterface = None, remoteEndpoints = Map.empty,
                         isGateway = False\<rparr>,
            trace = [], logged = []\<rparr>"

text \<open>Every call succeeds; three rules are listed, the third of another table.\<close>

definition E_ok :: env where
  "E_ok = \<lparr>OverlappingSubnets = (\<lambda>service cluster subnets. None),
            answer = (\<lambda>h tr c. None),
            RuleList_answer = (\<lambda>tr. Inr [rule1, rule3, rule2]),
            InterfaceByName_answer = (\<lambda>tr name. Inr (Interface 7 name)),
            GetDefaultGatewayInterface_answer = (\<lambda>tr. Inr (Interface 2 ''eth0''))\<rparr>"

text \<open>As \<open>E_ok\<close>, but the deletion of the first rule fails.\<close>

definition E_ruledel_fails :: env where
  "E_ruledel_fails = E_ok\<lparr>answer := (\<lambda>h tr c. if c = RuleDel rule1 then Some (Error ''EPERM'') else None)\<rparr>"

text \<open>Every call fails.\<close>

definition E_all_fail :: env where
  "E_all_fail = \<lparr>OverlappingSubnets = (\<lambda>service cluster subnets. None),
            answer = (\<lambda>h tr c. Some (Error ''failed'')),
            RuleList_answer = (\<lambda>tr. Inl (Error ''failed'')),
            InterfaceByName_answer = (\<lambda>tr name. Inl (Error ''failed'')),
            GetDefaultGatewayInterface_answer = (\<lambda>tr. Inl (Error ''failed''))\<rparr>"

text \<open>Two remote endpoints with one subnet each, and a node that knows both.\<close>

definition endpointA :: Endpoint where
  "endpointA = \<lparr>Name = ''A'', Spec = \<lparr>Backend = ''libreswan'', Subnets = [''10.1.0.0/24'']\<rparr>\<rparr>"

definition endpointB :: Endpoint where
  "endpointB = \<lparr>Name = ''B'', Spec = \<lparr>Backend = ''libreswan'', Subnets = [''10.2.0.0/24'']\<rparr>\<rparr>"

definition nodeAB :: node where
  "nodeAB = node0\<lparr>handler := (handler node0)\<lparr>remoteEndpoints := [''A'' \<mapsto> endpointA, ''B'' \<mapsto> endpointB]\<rparr>\<rparr>"

text \<open>As \<open>E_ok\<close>, but adding the no-masquerade rule of the second subnet fails.\<close>

definition E_add_fails :: env where
  "E_add_fails = E_ok\<lparr>answer := (\<lambda>h tr c. if c = addNoMasqueradeIPTables ''10.2.0.0/24''
                                             then Some (Error ''iptables'') else None)\<rparr>"

text \<open>
  A gateway node that knows endpoint \<open>A\<close>, and an update of \<open>A\<close> that advertises a second
  subnet.
\<close>

definition nodeGW :: node where
  "nodeGW = node0\<lparr>handler := (handler node0)\<lparr>remoteEndpoints := [''A'' \<mapsto> endpointA],
                                               isGateway := True\<rparr>\<rparr>"

definition endpointA2 :: Endpoint where
  "endpointA2 = \<lparr>Name = ''A'',
                  Spec = \<lparr>Backend = ''libreswan'', Subnets = [''10.1.0.0/24'', ''10.3.0.0/24'']\<rparr>\<rparr>"

text \<open>As \<open>E_ok\<close>, but host-network reconciliation fails.\<close>

definition E_host_fails :: env where
  "E_host_fails = E_ok\<lparr>answer := (\<lambda>h tr c. if c = updateHostNetworkDataplane
                                              then Some (Error ''netlink'') else None)\<rparr>"

text \<open>
  An endpoint inside the cluster CIDR of \<open>node0\<close>, and collaborators whose overlap check
  rejects it.
\<close>

definition endpointC :: Endpoint where
  "endpointC = \<lparr>Name = ''cluster-c'',
                 Spec = \<lparr>Backend = ''libreswan'', Subnets = [''10.1.0.0/16'']\<rparr>\<rparr>"

definition E_overlap :: env where
  "E_overlap = E_ok\<lparr>OverlappingSubnets :=
     (\<lambda>service cluster subnets.
        if cluster = [''10.0.0.0/8''] \<and> ''10.1.0.0/16'' \<in> set subnets
        then Some (Error ''overlapping subnets'') else None)\<rparr>"

text \<open>A local endpoint of the wireguard backend, and a host without the wireguard device.\<close>

definition endpointW :: Endpoint where
  "endpointW = \<lparr>Name = ''local'', Spec = \<lparr>Backend = ''wireguard'', Subnets = [''10.0.0.0/8'']\<rparr>\<rparr>"

definition E_no_device :: env where
  "E_no_device = E_ok\<lparr>InterfaceByName_answer := (\<lambda>tr name. Inl (Error ''no such network interface''))\<rparr>"

text \<open>Every call fails except the listing of the rules.\<close>

definition E_fail_listed :: env where
  "E_fail_listed = E_all_fail\<lparr>RuleList_answer := (\<lambda>tr. Inr [rule1, rule3, rule2])\<rparr>"

text \<open>
  A sample overlap check for the CIDRs of \<open>node0\<close> (cluster \<open>10.0.0.0/8\<close>, service
  \<open>100.64.0.0/16\<close>): a subnet of prefix length 16 or more overlaps one of them exactly when
  it starts with \<open>10.\<close> or with \<open>100.64.\<close>. Every other call succeeds.
\<close>

definition E_checked :: env where
  "E_checked = E_ok\<lparr>OverlappingSubnets :=
     (\<lambda>service cluster subnets.
        if list_ex (\<lambda>subnet. take 3 subnet = ''10.'' \<or> take 7 subnet = ''100.64.'') subnets
        then Some (Error ''overlapping subnets'') else None)\<rparr>"

text \<open>
  A gateway node that knows the endpoint \<open>cluster-b\<close>, whose subnet is outside both CIDRs
  of the node, and an update of \<open>cluster-b\<close> that advertises a second such subnet.
\<close>

definition endpointB1 :: Endpoint where
  "endpointB1 = \<lparr>Name = ''cluster-b'',
                  Spec = \<lparr>Backend = ''libreswan'', Subnets = [''172.16.0.0/16'']\<rparr>\<rparr>"

definition endpointB2 :: Endpoint where
  "endpointB2 = \<lparr>Name = ''cluster-b'',
                  Spec = \<lparr>Backend = ''libreswan'', Subnets = [''172.16.0.0/16'', ''172.17.0.0/16'']\<rparr>\<rparr>"

definition nodeGWb :: node where
  "nodeGWb = node0\<lparr>handler := (handler node0)\<lparr>remoteEndpoints := [''cluster-b'' \<mapsto> endpointB1],
                                                isGateway := True\<rparr>\<rparr>"

section \<open>Facts about the primitive steps and the uninstall path\<close>

lemma record_step_simps:
  "handler (record_step c s) = handler s"
  "trace (record_step c s) = trace s @ [c]"
  "logged (record_step c s) = logged s"
  by (simp_all add: record_step_def)

lemma klog_simps:
  "handler (klog l s) = handler s"
  "trace (klog l s) = trace s"
  "logged (klog l s) = logged s @ [l]"
  by (simp_all add: klog_def)

lemma attempt_simps:
  "handler (attempt E c f s) = handler s"
  "trace (attempt E c f s) = trace s @ [c]"
  by (simp_all add: attempt_def call_def record_step_simps klog_simps split: option.split)

lemma logged_attempt:
  "logged (attempt E c f s) =
     logged s @ (case answer E (handler s) (trace s) c of None \<Rightarrow> [] | Some err \<Rightarrow> [f err])"
  by (simp add: attempt_def call_def record_step_simps klog_simps split: option.split)

lemma flushAndDeleteIPTableChains_handler:
  "handler (flushAndDeleteIPTableChains E t tc sc s) = handler s"
  by (simp add: flushAndDeleteIPTableChains_def attempt_simps klog_simps)

lemma flushAndDeleteIPTableChains_trace:
  "trace (flushAndDeleteIPTableChains E t tc sc s) =
     trace s @ [ClearChain t sc, Delete t tc [''-j'', sc], DeleteChain t sc]"
  by (simp add: flushAndDeleteIPTableChains_def attempt_simps klog_simps)

lemma prefix_logged_attempt: "prefix (logged s) (logged (attempt E c f s))"
  by (simp add: logged_attempt)

lemma prefix_logged_flushAndDelete:
  "prefix (logged s) (logged (flushAndDeleteIPTableChains E t tc sc s))"
  by (simp add: flushAndDeleteIPTableChains_def klog_simps logged_attempt)

lemma deleteRules_matching: "deleteRules K E rules s = deleteRules K E (matching K rules) s"
  by (induction rules arbitrary: s) (auto simp: matching_def split: prod.split option.split)

lemma deleteRules_all_matching:
  assumes "\<forall>r\<in>set m. Table r = RouteAgentInterClusterNetworkTableID K \<or> Table r = RouteAgentHostNetworkTableID K"
      and "deleteRules K E m s = (s', r)"
  shows "handler s' = handler s \<and> logged s' = logged s \<and>
     (case r of
        None \<Rightarrow> trace s' = trace s @ map RuleDel m
      | Some err \<Rightarrow>
          (\<exists>before failed rest cause.
             m = before @ failed # rest \<and>
             trace s' = trace s @ map RuleDel (before @ [failed]) \<and>
             answer E (handler s) (trace s @ map RuleDel before) (RuleDel failed) = Some cause \<and>
             err = Wrapf cause ''error deleting the rule %v'' [WRule failed]))"
  using assms
proof (induction m arbitrary: s)
  case Nil
  then show ?case by auto
next
  case (Cons x m)
  show ?case
  proof (cases "answer E (handler s) (trace s) (RuleDel x)")
    case (Some cause)
    with Cons.prems have res: "s' = record_step (RuleDel x) s"
        "r = Some (Wrapf cause ''error deleting the rule %v'' [WRule x])"
      by (auto simp: call_def)
    have "x # m = [] @ x # m \<and> trace s' = trace s @ map RuleDel ([] @ [x]) \<and>
        answer E (handler s) (trace s @ map RuleDel []) (RuleDel x) = Some cause"
      using Some res by (simp add: record_step_simps)
    then show ?thesis using res by (simp add: record_step_simps)
  next
    case None
    let ?s1 = "record_step (RuleDel x) s"
    from None Cons.prems have rec: "deleteRules K E m ?s1 = (s', r)"
      by (auto simp: call_def)
    from Cons.prems have "\<forall>r\<in>set m. Table r = RouteAgentInterClusterNetworkTableID K \<or> Table r = RouteAgentHostNetworkTableID K"
      by simp
    from Cons.IH [OF this rec]
    have ih: "handler s' = handler s \<and> logged s' = logged s \<and>
     (case r of
        None \<Rightarrow> trace s' = trace s @ RuleDel x # map RuleDel m
      | Some err \<Rightarrow>
          (\<exists>before failed rest cause.
             m = before @ failed # rest \<and>
             trace s' = trace s @ RuleDel x # map RuleDel (before @ [failed]) \<and>
             answer E (handler s) (trace s @ RuleDel x # map RuleDel before) (RuleDel failed) = Some cause \<and>
             err = Wrapf cause ''error deleting the rule %v'' [WRule failed]))"
      by (cases r) (simp_all add: record_step_simps)
    show ?thesis
    proof (cases r)
      case None
      with ih show ?thesis by simp
    next
      case (Some err)
      with ih obtain before failed rest cause where
        "m = before @ failed # rest"
        "trace s' = trace s @ RuleDel x # map RuleDel (before @ [failed])"
        "answer E (handler s) (trace s @ RuleDel x # map RuleDel before) (RuleDel failed) = Some cause"
        "err = Wrapf cause ''error deleting the rule %v'' [WRule failed]"
        by auto
      then have "x # m = (x # before) @ failed # rest \<and>
          trace s' = trace s @ map RuleDel ((x # before) @ [failed]) \<and>
          answer E (handler s) (trace s @ map RuleDel (x # before)) (RuleDel failed) = Some cause \<and>
          err = Wrapf cause ''error deleting the rule %v'' [WRule failed]"
        by simp
      then show ?thesis using ih Some by (simp del: append_Cons map_append list.map) blast
    qed
  qed
qed

lemma cleanupRoutes_listing_fails:
  "RuleList_answer E (trace s) = Inl err \<Longrightarrow>
     cleanupRoutes K E s = (record_step (RuleList (FAMILY_V4 K)) s, Some (Wrapf err ''error listing rules'' []))"
  by (simp add: cleanupRoutes_def RuleList_call_def)

lemma cleanupRoutes_handler: "handler (fst (cleanupRoutes K E s)) = handler s"
proof (cases "RuleList_answer E (trace s)")
  case (Inl err)
  then show ?thesis by (simp add: cleanupRoutes_def RuleList_call_def record_step_simps)
next
  case (Inr rules)
  obtain s' r where res: "deleteRules K E (matching K rules) (record_step (RuleList (FAMILY_V4 K)) s) = (s', r)"
    by (cases "deleteRules K E (matching K rules) (record_step (RuleList (FAMILY_V4 K)) s)")
  have "\<forall>r\<in>set (matching K rules). Table r = RouteAgentInterClusterNetworkTableID K \<or> Table r = RouteAgentHostNetworkTableID K"
    by (simp add: matching_def)
  from deleteRules_all_matching [OF this res] have "handler s' = handler s"
    by (simp add: record_step_simps)
  then show ?thesis using Inr res
    by (simp add: cleanupRoutes_def RuleList_call_def deleteRules_matching [of K E rules])
qed

lemma cleanupRoutes_logged: "logged (fst (cleanupRoutes K E s)) = logged s"
proof (cases "RuleList_answer E (trace s)")
  case (Inl err)
  then show ?thesis by (simp add: cleanupRoutes_def RuleList_call_def record_step_simps)
next
  case (Inr rules)
  obtain s' r where res: "deleteRules K E (matching K rules) (record_step (RuleList (FAMILY_V4 K)) s) = (s', r)"
    by (cases "deleteRules K E (matching K rules) (record_step (RuleList (FAMILY_V4 K)) s)")
  have "\<forall>r\<in>set (matching K rules). Table r = RouteAgentInterClusterNetworkTableID K \<or> Table r = RouteAgentHostNetworkTableID K"
    by (simp add: matching_def)
  from deleteRules_all_matching [OF this res] have "logged s' = logged s"
    by (simp add: record_step_simps)
  then show ?thesis using Inr res
    by (simp add: cleanupRoutes_def RuleList_call_def deleteRules_matching [of K E rules])
qed

lemma cleanupRoutes_trace:
  "\<exists>deleted. trace (fst (cleanupRoutes K E s)) = trace s @ RuleList (FAMILY_V4 K) # map RuleDel deleted"
proof (cases "RuleList_answer E (trace s)")
  case (Inl err)
  then have "trace (fst (cleanupRoutes K E s)) = trace s @ RuleList (FAMILY_V4 K) # map RuleDel []"
    by (simp add: cleanupRoutes_def RuleList_call_def record_step_simps)
  then show ?thesis by blast
next
  case (Inr rules)
  obtain s' r where res: "deleteRules K E (matching K rules) (record_step (RuleList (FAMILY_V4 K)) s) = (s', r)"
    by (cases "deleteRules K E (matching K rules) (record_step (RuleList (FAMILY_V4 K)) s)")
  have "\<forall>r\<in>set (matching K rules). Table r = RouteAgentInterClusterNetworkTableID K \<or> Table r = RouteAgentHostNetworkTableID K"
    by (simp add: matching_def)
  from deleteRules_all_matching [OF this res]
  have "\<exists>deleted. trace s' = trace s @ RuleList (FAMILY_V4 K) # map RuleDel deleted"
    by (cases r) (auto simp: record_step_simps simp del: map_append)
  then show ?thesis using Inr res
    by (simp add: cleanupRoutes_def RuleList_call_def deleteRules_matching [of K E rules])
qed

lemma Stop_unfold:
  "Stop K E True s =
     (flushAndDeleteIPTableChains E (NATTable K) (PostRoutingChain K) (SmPostRoutingChain K)
       (flushAndDeleteIPTableChains E (FilterTable K) (ForwardChain K) (forwardingSubmarinerFWDChain K)
         (attempt E (FlushRouteTable (RouteAgentHostNetworkTableID K))
            (\<lambda>err. Errorf ''Flushing routing table %d returned error: %v''
                      [LInt (RouteAgentHostNetworkTableID K), LErr err])
            (attempt E (FlushRouteTable (RouteAgentInterClusterNetworkTableID K))
               (\<lambda>err. Errorf ''Flushing routing table %d returned error: %v''
                         [LInt (RouteAgentInterClusterNetworkTableID K), LErr err])
               (case cleanupRoutes K E (beforeCleanupRoutes K E s) of
                  (s1, None) \<Rightarrow> s1
                | (s1, Some err) \<Rightarrow> klog (Errorf ''Error cleaning the routes %v'' [LErr err]) s1)))),
      None)"
  by (simp add: Stop_def beforeCleanupRoutes_def Let_def)

lemma beforeCleanupRoutes_simps:
  "handler (beforeCleanupRoutes K E s) = handler s"
  "trace (beforeCleanupRoutes K E s) =
     trace s @ [DelInternalPort (ovnK8sSubmarinerBridge K) (ovnK8sSubmarinerInterface K),
                DelBridge (ovnK8sSubmarinerBridge K)]"
  by (simp_all add: beforeCleanupRoutes_def attempt_simps klog_simps)

lemma cleanup_step_simps:
  "handler (case cleanupRoutes K E s of (s1, None) \<Rightarrow> s1 | (s1, Some err) \<Rightarrow> klog (f err) s1) = handler s"
  "trace (case cleanupRoutes K E s of (s1, None) \<Rightarrow> s1 | (s1, Some err) \<Rightarrow> klog (f err) s1) =
     trace (fst (cleanupRoutes K E s))"
  using cleanupRoutes_handler [of K E s]
  by (auto simp: klog_simps split: prod.split option.split)

lemma allSucceed_append:
  "allSucceed E h tr (xs @ ys) = (allSucceed E h tr xs \<and> allSucceed E h (tr @ xs) ys)"
  by (induction xs arbitrary: tr) simp_all

lemma deleteRules_exact:
  assumes "\<forall>r\<in>set m. Table r = RouteAgentInterClusterNetworkTableID K \<or> Table r = RouteAgentHostNetworkTableID K"
      and "deleteRules K E m s = (s', r)"
  shows "case r of
        None \<Rightarrow>
          trace s' = trace s @ map RuleDel m \<and>
          allSucceed E (handler s) (trace s) (map RuleDel m)
      | Some err \<Rightarrow>
          (\<exists>before failed rest cause.
             m = before @ failed # rest \<and>
             trace s' = trace s @ map RuleDel (before @ [failed]) \<and>
             allSucceed E (handler s) (trace s) (map RuleDel before) \<and>
             answer E (handler s) (trace s @ map RuleDel before) (RuleDel failed) = Some cause \<and>
             err = Wrapf cause ''error deleting the rule %v'' [WRule failed])"
  using assms
proof (induction m arbitrary: s)
  case Nil
  then show ?case by auto
next
  case (Cons x m)
  show ?case
  proof (cases "answer E (handler s) (trace s) (RuleDel x)")
    case (Some cause)
    with Cons.prems have res: "s' = record_step (RuleDel x) s"
        "r = Some (Wrapf cause ''error deleting the rule %v'' [WRule x])"
      by (auto simp: call_def)
    have "x # m = [] @ x # m \<and> trace s' = trace s @ map RuleDel ([] @ [x]) \<and>
        allSucceed E (handler s) (trace s) (map RuleDel []) \<and>
        answer E (handler s) (trace s @ map RuleDel []) (RuleDel x) = Some cause \<and>
        Wrapf cause ''error deleting the rule %v'' [WRule x] =
          Wrapf cause ''error deleting the rule %v'' [WRule x]"
      using Some res by (simp add: record_step_simps)
    then have "\<exists>before failed rest cause'.
             x # m = before @ failed # rest \<and>
             trace s' = trace s @ map RuleDel (before @ [failed]) \<and>
             allSucceed E (handler s) (trace s) (map RuleDel before) \<and>
             answer E (handler s) (trace s @ map RuleDel before) (RuleDel failed) = Some cause' \<and>
             Wrapf cause ''error deleting the rule %v'' [WRule x] =
               Wrapf cause' ''error deleting the rule %v'' [WRule failed]"
      by (intro exI [of _ "[]"] exI [of _ x] exI [of _ m] exI [of _ cause])
    then show ?thesis using res by simp
  next
    case None
    let ?s1 = "record_step (RuleDel x) s"
    from None Cons.prems have rec: "deleteRules K E m ?s1 = (s', r)"
      by (auto simp: call_def)
    from Cons.prems have "\<forall>r\<in>set m. Table r = RouteAgentInterClusterNetworkTableID K \<or> Table r = RouteAgentHostNetworkTableID K"
      by simp
    note ih = Cons.IH [OF this rec]
    show ?thesis
    proof (cases r)
      case rNone: None
      with ih None show ?thesis by (simp add: record_step_simps)
    next
      case (Some err)
      with ih obtain before failed rest cause where
        "m = before @ failed # rest"
        "trace s' = trace ?s1 @ map RuleDel (before @ [failed])"
        "allSucceed E (handler ?s1) (trace ?s1) (map RuleDel before)"
        "answer E (handler ?s1) (trace ?s1 @ map RuleDel before) (RuleDel failed) = Some cause"
        "err = Wrapf cause ''error deleting the rule %v'' [WRule failed]"
        by auto
      then have "x # m = (x # before) @ failed # rest \<and>
          trace s' = trace s @ map RuleDel ((x # before) @ [failed]) \<and>
          allSucceed E (handler s) (trace s) (map RuleDel (x # before)) \<and>
          answer E (handler s) (trace s @ map RuleDel (x # before)) (RuleDel failed) = Some cause \<and>
          err = Wrapf cause ''error deleting the rule %v'' [WRule failed]"
        using None by (simp add: record_step_simps)
      then have "\<exists>before failed rest cause.
             x # m = before @ failed # rest \<and>
             trace s' = trace s @ map RuleDel (before @ [failed]) \<and>
             allSucceed E (handler s) (trace s) (map RuleDel before) \<and>
             answer E (handler s) (trace s @ map RuleDel before) (RuleDel failed) = Some cause \<and>
             err = Wrapf cause ''error deleting the rule %v'' [WRule failed]"
        by (intro exI [of _ "x # before"] exI [of _ failed] exI [of _ rest] exI [of _ cause])
      then show ?thesis using Some by simp
    qed
  qed
qed

lemma cleanupRoutes_exact:
  assumes listed: "RuleList_answer E (trace s) = Inr rules"
      and run: "cleanupRoutes K E s = (s', r)"
  shows "case r of
        None \<Rightarrow>
          trace s' = trace s @ RuleList (FAMILY_V4 K) # map RuleDel (matching K rules) \<and>
          allSucceed E (handler s) (trace s @ [RuleList (FAMILY_V4 K)]) (map RuleDel (matching K rules))
      | Some err \<Rightarrow>
          (\<exists>before failed rest cause.
             matching K rules = before @ failed # rest \<and>
             trace s' = trace s @ RuleList (FAMILY_V4 K) # map RuleDel (before @ [failed]) \<and>
             allSucceed E (handler s) (trace s @ [RuleList (FAMILY_V4 K)]) (map RuleDel before) \<and>
             answer E (handler s) (trace s @ RuleList (FAMILY_V4 K) # map RuleDel before)
               (RuleDel failed) = Some cause \<and>
             err = Wrapf cause ''error deleting the rule %v'' [WRule failed])"
proof -
  let ?s1 = "record_step (RuleList (FAMILY_V4 K)) s"
  have all: "\<forall>r\<in>set (matching K rules). Table r = RouteAgentInterClusterNetworkTableID K \<or> Table r = RouteAgentHostNetworkTableID K"
    by (simp add: matching_def)
  have del: "deleteRules K E (matching K rules) ?s1 = (s', r)"
    using listed run
    by (simp add: cleanupRoutes_def RuleList_call_def deleteRules_matching [of K E rules])
  have h: "handler ?s1 = handler s" and t: "trace ?s1 = trace s @ [RuleList (FAMILY_V4 K)]"
    by (simp_all add: record_step_simps)
  from deleteRules_exact [OF all del, unfolded h t] show ?thesis
    by (cases r) simp_all
qed

lemma prefix_logged_Stop_after_cleanup:
  "prefix (logged (case cleanupRoutes K E (beforeCleanupRoutes K E s) of
                     (s1, None) \<Rightarrow> s1
                   | (s1, Some err) \<Rightarrow> klog (Errorf ''Error cleaning the routes %v'' [LErr err]) s1))
          (logged (fst (Stop K E True s)))"
  unfolding Stop_unfold fst_conv
  by (rule prefix_order.trans [OF _ prefix_logged_flushAndDelete],
      rule prefix_order.trans [OF _ prefix_logged_flushAndDelete],
      rule prefix_order.trans [OF _ prefix_logged_attempt],
      rule prefix_logged_attempt)

lemma Stop_trace_after_cleanup:
  "trace (fst (Stop K E True s)) =
     trace (fst (cleanupRoutes K E (beforeCleanupRoutes K E s))) @
       [FlushRouteTable (RouteAgentInterClusterNetworkTableID K),
        FlushRouteTable (RouteAgentHostNetworkTableID K),
        ClearChain (FilterTable K) (forwardingSubmarinerFWDChain K),
        Delete (FilterTable K) (ForwardChain K) [''-j'', forwardingSubmarinerFWDChain K],
        DeleteChain (FilterTable K) (forwardingSubmarinerFWDChain K),
        ClearChain (NATTable K) (SmPostRoutingChain K),
        Delete (NATTable K) (PostRoutingChain K) [''-j'', SmPostRoutingChain K],
        DeleteChain (NATTable K) (SmPostRoutingChain K)]"
  by (simp add: Stop_unfold flushAndDeleteIPTableChains_trace attempt_simps cleanup_step_simps)

lemma Stop_trace_steps:
  "trace (fst (Stop K E True s)) =
     trace (fst (cleanupRoutes K E (beforeCleanupRoutes K E s))) @ stepsAfterCleanupRoutes K"
  by (simp add: Stop_trace_after_cleanup stepsAfterCleanupRoutes_def)

lemma beforeCleanupRoutes_steps:
  "trace (beforeCleanupRoutes K E s) = trace s @ stepsBeforeCleanupRoutes K"
  by (simp add: beforeCleanupRoutes_simps stepsBeforeCleanupRoutes_def)

section \<open>The uninstall path\<close>

text \<open>
  C6. Whatever the collaborators answer, \<^verbatim>\<open>Stop(true)\<close> attempts the teardown steps in the fixed
  order: delete the bridge port, delete the bridge, list the rules and delete the matching
  ones, flush the inter-cluster and then the host-network route table, and the three
  operations on each of the two chain pairs. The deletions attempted are those of the
  matching rules in list order: all of them when each is answered with nil, otherwise those
  up to and including the first that fails. Whichever step fails, the steps after the rule
  cleanup follow, \<^verbatim>\<open>Stop\<close> returns nil, and the handler's fields are as before.
\<close>

theorem Stop_uninstall_attempts_every_step:
  "(case RuleList_answer E (trace s @ stepsBeforeCleanupRoutes K) of
      Inl err \<Rightarrow>
        trace (fst (Stop K E True s)) =
          trace s @ stepsBeforeCleanupRoutes K @ [RuleList (FAMILY_V4 K)] @
          stepsAfterCleanupRoutes K
    | Inr rules \<Rightarrow>
        allSucceed E (handler s) (trace s @ stepsBeforeCleanupRoutes K @ [RuleList (FAMILY_V4 K)])
          (map RuleDel (matching K rules)) \<and>
        trace (fst (Stop K E True s)) =
          trace s @ stepsBeforeCleanupRoutes K @ [RuleList (FAMILY_V4 K)] @
          map RuleDel (matching K rules) @ stepsAfterCleanupRoutes K
        \<or>
        (\<exists>before failed rest cause.
           matching K rules = before @ failed # rest \<and>
           allSucceed E (handler s) (trace s @ stepsBeforeCleanupRoutes K @ [RuleList (FAMILY_V4 K)])
             (map RuleDel before) \<and>
           answer E (handler s)
             (trace s @ stepsBeforeCleanupRoutes K @ [RuleList (FAMILY_V4 K)] @ map RuleDel before)
             (RuleDel failed) = Some cause \<and>
           trace (fst (Stop K E True s)) =
             trace s @ stepsBeforeCleanupRoutes K @ [RuleList (FAMILY_V4 K)] @
             map RuleDel (before @ [failed]) @ stepsAfterCleanupRoutes K)) \<and>
   snd (Stop K E True s) = None \<and>
   handler (fst (Stop K E True s)) = handler s"
proof -
  let ?b = "beforeCleanupRoutes K E s"
  let ?pre = "trace s @ stepsBeforeCleanupRoutes K @ [RuleList (FAMILY_V4 K)]"
  have tb: "trace ?b = trace s @ stepsBeforeCleanupRoutes K" by (rule beforeCleanupRoutes_steps)
  have hb: "handler ?b = handler s" by (simp add: beforeCleanupRoutes_simps)
  obtain s' r where run: "cleanupRoutes K E ?b = (s', r)" by (cases "cleanupRoutes K E ?b")
  have tr: "trace (fst (Stop K E True s)) = trace s' @ stepsAfterCleanupRoutes K"
    using run by (simp add: Stop_trace_steps)
  have rules_part: "case RuleList_answer E (trace s @ stepsBeforeCleanupRoutes K) of
      Inl err \<Rightarrow>
        trace (fst (Stop K E True s)) = ?pre @ stepsAfterCleanupRoutes K
    | Inr rules \<Rightarrow>
        allSucceed E (handler s) ?pre (map RuleDel (matching K rules)) \<and>
        trace (fst (Stop K E True s)) =
          ?pre @ map RuleDel (matching K rules) @ stepsAfterCleanupRoutes K
        \<or>
        (\<exists>before failed rest cause.
           matching K rules = before @ failed # rest \<and>
           allSucceed E (handler s) ?pre (map RuleDel before) \<and>
           answer E (handler s) (?pre @ map RuleDel before) (RuleDel failed) = Some cause \<and>
           trace (fst (Stop K E True s)) =
             ?pre @ map RuleDel (before @ [failed]) @ stepsAfterCleanupRoutes K)"
  proof (cases "RuleList_answer E (trace s @ stepsBeforeCleanupRoutes K)")
    case (Inl err)
    then have "RuleList_answer E (trace ?b) = Inl err" by (simp add: tb)
    from cleanupRoutes_listing_fails [OF this, of K] run
    have "trace s' = trace ?b @ [RuleList (FAMILY_V4 K)]" by (auto simp: record_step_simps)
    with Inl tr tb show ?thesis by simp
  next
    case (Inr rules)
    then have listed: "RuleList_answer E (trace ?b) = Inr rules" by (simp add: tb)
    note ex = cleanupRoutes_exact [OF listed run, unfolded hb tb]
    show ?thesis
    proof (cases r)
      case None
      with ex have "allSucceed E (handler s) ?pre (map RuleDel (matching K rules)) \<and>
          trace (fst (Stop K E True s)) =
            ?pre @ map RuleDel (matching K rules) @ stepsAfterCleanupRoutes K"
        using tr by simp
      then show ?thesis using Inr by simp
    next
      case (Some err)
      with ex obtain before failed rest cause where b:
        "matching K rules = before @ failed # rest"
        "trace s' = (trace s @ stepsBeforeCleanupRoutes K) @ RuleList (FAMILY_V4 K) # map RuleDel (before @ [failed])"
        "allSucceed E (handler s) ((trace s @ stepsBeforeCleanupRoutes K) @ [RuleList (FAMILY_V4 K)]) (map RuleDel before)"
        "answer E (handler s) ((trace s @ stepsBeforeCleanupRoutes K) @ RuleList (FAMILY_V4 K) # map RuleDel before)
               (RuleDel failed) = Some cause"
        by auto
      have "matching K rules = before @ failed # rest \<and>
           allSucceed E (handler s) ?pre (map RuleDel before) \<and>
           answer E (handler s) (?pre @ map RuleDel before) (RuleDel failed) = Some cause \<and>
           trace (fst (Stop K E True s)) =
             ?pre @ map RuleDel (before @ [failed]) @ stepsAfterCleanupRoutes K"
        using b tr by simp
      then have "\<exists>before failed rest cause.
           matching K rules = before @ failed # rest \<and>
           allSucceed E (handler s) ?pre (map RuleDel before) \<and>
           answer E (handler s) (?pre @ map RuleDel before) (RuleDel failed) = Some cause \<and>
           trace (fst (Stop K E True s)) =
             ?pre @ map RuleDel (before @ [failed]) @ stepsAfterCleanupRoutes K"
        by (intro exI [of _ before] exI [of _ failed] exI [of _ rest] exI [of _ cause])
      then show ?thesis using Inr by simp
    qed
  qed
  moreover have "snd (Stop K E True s) = None"
    by (simp add: Stop_unfold)
  moreover have "handler (fst (Stop K E True s)) = handler s"
    by (simp add: Stop_unfold flushAndDeleteIPTableChains_handler attempt_simps
        cleanup_step_simps beforeCleanupRoutes_simps)
  ultimately show ?thesis
    by (cases "RuleList_answer E (trace s @ stepsBeforeCleanupRoutes K)") simp_all
qed

theorem Stop_uninstall_attempts_every_step_witness:
  "trace (fst (Stop K0 E_ok True node0)) =
     [DelInternalPort ''br-submariner'' ''ovn-k8s-sub0'', DelBridge ''br-submariner'', RuleList 2,
      RuleDel rule1, RuleDel rule2,
      FlushRouteTable 149, FlushRouteTable 150,
      ClearChain ''filter'' ''SUBMARINER-FWD'',
      Delete ''filter'' ''FORWARD'' [''-j'', ''SUBMARINER-FWD''],
      DeleteChain ''filter'' ''SUBMARINER-FWD'',
      ClearChain ''nat'' ''SUBMARINER-POSTROUTING'',
      Delete ''nat'' ''POSTROUTING'' [''-j'', ''SUBMARINER-POSTROUTING''],
      DeleteChain ''nat'' ''SUBMARINER-POSTROUTING''] \<and>
   trace (fst (Stop K0 E_fail_listed True node0)) =
     [DelInternalPort ''br-submariner'' ''ovn-k8s-sub0'', DelBridge ''br-submariner'', RuleList 2,
      RuleDel rule1,
      FlushRouteTable 149, FlushRouteTable 150,
      ClearChain ''filter'' ''SUBMARINER-FWD'',
      Delete ''filter'' ''FORWARD'' [''-j'', ''SUBMARINER-FWD''],
      DeleteChain ''filter'' ''SUBMARINER-FWD'',
      ClearChain ''nat'' ''SUBMARINER-POSTROUTING'',
      Delete ''nat'' ''POSTROUTING'' [''-j'', ''SUBMARINER-POSTROUTING''],
      DeleteChain ''nat'' ''SUBMARINER-POSTROUTING''] \<and>
   trace (fst (Stop K0 E_all_fail True node0)) =
     [DelInternalPort ''br-submariner'' ''ovn-k8s-sub0'', DelBridge ''br-submariner'', RuleList 2,
      FlushRouteTable 149, FlushRouteTable 150,
      ClearChain ''filter'' ''SUBMARINER-FWD'',
      Delete ''filter'' ''FORWARD'' [''-j'', ''SUBMARINER-FWD''],
      DeleteChain ''filter'' ''SUBMARINER-FWD'',
      ClearChain ''nat'' ''SUBMARINER-POSTROUTING'',
      Delete ''nat'' ''POSTROUTING'' [''-j'', ''SUBMARINER-POSTROUTING''],
      DeleteChain ''nat'' ''SUBMARINER-POSTROUTING''] \<and>
   snd (Stop K0 E_ok True node0) = None \<and>
   snd (Stop K0 E_fail_listed True node0) = None \<and>
   snd (Stop K0 E_all_fail True node0) = None \<and>
   handler (fst (Stop K0 E_fail_listed True node0)) = handler node0"
proof -
  have m: "matching K0 [rule1, rule3, rule2] = [rule1, rule2]"
    by (simp add: matching_def K0_def rule1_def rule2_def rule3_def)
  have ne: "[rule1, rule2] = before @ failed # rest \<Longrightarrow>
      before = [] \<and> failed = rule1 \<or> before = [rule1] \<and> failed = rule2" for before failed rest
    by (cases before) (auto simp: Cons_eq_append_conv)
  have t0: "trace node0 = []" by (simp add: node0_def)
  have ok: "trace (fst (Stop K0 E_ok True node0)) =
      stepsBeforeCleanupRoutes K0 @ [RuleList (FAMILY_V4 K0)] @ map RuleDel [rule1, rule2] @
      stepsAfterCleanupRoutes K0"
    using Stop_uninstall_attempts_every_step [where E = E_ok and s = node0 and K = K0]
    by (auto simp: E_ok_def m t0)
  have fl: "trace (fst (Stop K0 E_fail_listed True node0)) =
      stepsBeforeCleanupRoutes K0 @ [RuleList (FAMILY_V4 K0)] @ map RuleDel [rule1] @
      stepsAfterCleanupRoutes K0"
    using Stop_uninstall_attempts_every_step [where E = E_fail_listed and s = node0 and K = K0]
    by (auto simp: E_fail_listed_def E_all_fail_def m t0 dest!: ne)
  have af: "trace (fst (Stop K0 E_all_fail True node0)) =
      stepsBeforeCleanupRoutes K0 @ [RuleList (FAMILY_V4 K0)] @ stepsAfterCleanupRoutes K0"
    using Stop_uninstall_attempts_every_step [where E = E_all_fail and s = node0 and K = K0]
    by (simp add: E_all_fail_def t0)
  have rest: "snd (Stop K0 E_ok True node0) = None \<and>
      snd (Stop K0 E_fail_listed True node0) = None \<and>
      snd (Stop K0 E_all_fail True node0) = None \<and>
      handler (fst (Stop K0 E_fail_listed True node0)) = handler node0"
    using Stop_uninstall_attempts_every_step [where E = E_ok and s = node0 and K = K0]
      Stop_uninstall_attempts_every_step [where E = E_fail_listed and s = node0 and K = K0]
      Stop_uninstall_attempts_every_step [where E = E_all_fail and s = node0 and K = K0]
    by blast
  show ?thesis
    unfolding ok fl af
    using rest by (simp add: stepsBeforeCleanupRoutes_def stepsAfterCleanupRoutes_def K0_def)
qed

text \<open>
  C5 (as the code has it). \<^verbatim>\<open>cleanupRoutes\<close> deletes the listed rules of the two reserved
  tables in list order and returns at the first deletion that fails. It returns nil exactly
  when every matching rule was attempted and every deletion was answered with nil. It
  returns an error exactly when the matching rules before some rule were deleted with
  success, the deletion of that rule failed, and no matching rule after it was attempted; the
  error wraps the cause and names that rule. The step stays best-effort for \<^verbatim>\<open>Stop\<close>: the
  returned error is logged, \<^verbatim>\<open>Stop\<close> returns nil, and the two flushes and the chain teardown
  follow.
\<close>

theorem uninstall_rule_cleanup_stops_at_failed_deletion:
  assumes listed: "RuleList_answer E (trace (beforeCleanupRoutes K E s)) = Inr rules"
      and run: "cleanupRoutes K E (beforeCleanupRoutes K E s) = (s', r)"
  shows "(case r of
            None \<Rightarrow>
              allSucceed E (handler s)
                (trace (beforeCleanupRoutes K E s) @ [RuleList (FAMILY_V4 K)])
                (map RuleDel (matching K rules)) \<and>
              trace s' = trace (beforeCleanupRoutes K E s) @
                           RuleList (FAMILY_V4 K) # map RuleDel (matching K rules)
          | Some err \<Rightarrow>
              (\<exists>before failed rest cause.
                 matching K rules = before @ failed # rest \<and>
                 allSucceed E (handler s)
                   (trace (beforeCleanupRoutes K E s) @ [RuleList (FAMILY_V4 K)])
                   (map RuleDel before) \<and>
                 answer E (handler s)
                   (trace (beforeCleanupRoutes K E s) @
                      RuleList (FAMILY_V4 K) # map RuleDel before)
                   (RuleDel failed) = Some cause \<and>
                 trace s' = trace (beforeCleanupRoutes K E s) @
                              RuleList (FAMILY_V4 K) # map RuleDel (before @ [failed]) \<and>
                 err = Wrapf cause ''error deleting the rule %v'' [WRule failed]) \<and>
              Errorf ''Error cleaning the routes %v'' [LErr err] \<in> set (logged (fst (Stop K E True s)))) \<and>
         snd (Stop K E True s) = None \<and>
         trace (fst (Stop K E True s)) =
           trace s' @
           [FlushRouteTable (RouteAgentInterClusterNetworkTableID K),
            FlushRouteTable (RouteAgentHostNetworkTableID K),
            ClearChain (FilterTable K) (forwardingSubmarinerFWDChain K),
            Delete (FilterTable K) (ForwardChain K) [''-j'', forwardingSubmarinerFWDChain K],
            DeleteChain (FilterTable K) (forwardingSubmarinerFWDChain K),
            ClearChain (NATTable K) (SmPostRoutingChain K),
            Delete (NATTable K) (PostRoutingChain K) [''-j'', SmPostRoutingChain K],
            DeleteChain (NATTable K) (SmPostRoutingChain K)]"
proof -
  let ?b = "beforeCleanupRoutes K E s"
  have hb: "handler ?b = handler s" by (simp add: beforeCleanupRoutes_simps)
  note ex = cleanupRoutes_exact [OF listed run, unfolded hb]
  have rules_part: "case r of
            None \<Rightarrow>
              allSucceed E (handler s) (trace ?b @ [RuleList (FAMILY_V4 K)])
                (map RuleDel (matching K rules)) \<and>
              trace s' = trace ?b @ RuleList (FAMILY_V4 K) # map RuleDel (matching K rules)
          | Some err \<Rightarrow>
              (\<exists>before failed rest cause.
                 matching K rules = before @ failed # rest \<and>
                 allSucceed E (handler s) (trace ?b @ [RuleList (FAMILY_V4 K)])
                   (map RuleDel before) \<and>
                 answer E (handler s)
                   (trace ?b @ RuleList (FAMILY_V4 K) # map RuleDel before)
                   (RuleDel failed) = Some cause \<and>
                 trace s' = trace ?b @ RuleList (FAMILY_V4 K) # map RuleDel (before @ [failed]) \<and>
                 err = Wrapf cause ''error deleting the rule %v'' [WRule failed]) \<and>
              Errorf ''Error cleaning the routes %v'' [LErr err] \<in> set (logged (fst (Stop K E True s)))"
  proof (cases r)
    case None
    with ex show ?thesis by simp
  next
    case (Some err)
    with ex obtain before failed rest cause where split:
      "matching K rules = before @ failed # rest"
      "trace s' = trace ?b @ RuleList (FAMILY_V4 K) # map RuleDel (before @ [failed])"
      "allSucceed E (handler s) (trace ?b @ [RuleList (FAMILY_V4 K)]) (map RuleDel before)"
      "answer E (handler s) (trace ?b @ RuleList (FAMILY_V4 K) # map RuleDel before)
         (RuleDel failed) = Some cause"
      "err = Wrapf cause ''error deleting the rule %v'' [WRule failed]"
      by auto
    have "Errorf ''Error cleaning the routes %v'' [LErr err] \<in>
        set (logged (case cleanupRoutes K E ?b of
                       (s1, None) \<Rightarrow> s1
                     | (s1, Some err) \<Rightarrow> klog (Errorf ''Error cleaning the routes %v'' [LErr err]) s1))"
      using run Some by (simp add: klog_simps)
    then have logline: "Errorf ''Error cleaning the routes %v'' [LErr err] \<in> set (logged (fst (Stop K E True s)))"
      using set_mono_prefix [OF prefix_logged_Stop_after_cleanup [of K E s]] by blast
    have "matching K rules = before @ failed # rest \<and>
          allSucceed E (handler s) (trace ?b @ [RuleList (FAMILY_V4 K)]) (map RuleDel before) \<and>
          answer E (handler s) (trace ?b @ RuleList (FAMILY_V4 K) # map RuleDel before)
            (RuleDel failed) = Some cause \<and>
          trace s' = trace ?b @ RuleList (FAMILY_V4 K) # map RuleDel (before @ [failed]) \<and>
          err = Wrapf cause ''error deleting the rule %v'' [WRule failed]"
      using split by simp
    then have "\<exists>before failed rest cause.
          matching K rules = before @ failed # rest \<and>
          allSucceed E (handler s) (trace ?b @ [RuleList (FAMILY_V4 K)]) (map RuleDel before) \<and>
          answer E (handler s) (trace ?b @ RuleList (FAMILY_V4 K) # map RuleDel before)
            (RuleDel failed) = Some cause \<and>
          trace s' = trace ?b @ RuleList (FAMILY_V4 K) # map RuleDel (before @ [failed]) \<and>
          err = Wrapf cause ''error deleting the rule %v'' [WRule failed]"
      by (intro exI [of _ before] exI [of _ failed] exI [of _ rest] exI [of _ cause])
    then show ?thesis using Some logline by simp
  qed
  have "snd (Stop K E True s) = None" by (simp add: Stop_unfold)
  moreover have "trace (fst (Stop K E True s)) =
           trace s' @
           [FlushRouteTable (RouteAgentInterClusterNetworkTableID K),
            FlushRouteTable (RouteAgentHostNetworkTableID K),
            ClearChain (FilterTable K) (forwardingSubmarinerFWDChain K),
            Delete (FilterTable K) (ForwardChain K) [''-j'', forwardingSubmarinerFWDChain K],
            DeleteChain (FilterTable K) (forwardingSubmarinerFWDChain K),
            ClearChain (NATTable K) (SmPostRoutingChain K),
            Delete (NATTable K) (PostRoutingChain K) [''-j'', SmPostRoutingChain K],
            DeleteChain (NATTable K) (SmPostRoutingChain K)]"
    using run by (simp add: Stop_trace_after_cleanup)
  ultimately show ?thesis using rules_part by simp
qed

theorem uninstall_rule_cleanup_stops_at_failed_deletion_witness:
  "RuleList_answer E_ruledel_fails (trace (beforeCleanupRoutes K0 E_ruledel_fails node0)) =
     Inr [rule1, rule3, rule2] \<and>
   matching K0 [rule1, rule3, rule2] = [rule1, rule2] \<and>
   snd (cleanupRoutes K0 E_ruledel_fails (beforeCleanupRoutes K0 E_ruledel_fails node0)) =
     Some (Wrapf (Error ''EPERM'') ''error deleting the rule %v'' [WRule rule1]) \<and>
   Errorf ''Error cleaning the routes %v''
       [LErr (Wrapf (Error ''EPERM'') ''error deleting the rule %v'' [WRule rule1])]
     \<in> set (logged (fst (Stop K0 E_ruledel_fails True node0))) \<and>
   snd (Stop K0 E_ruledel_fails True node0) = None"
proof -
  let ?b = "beforeCleanupRoutes K0 E_ruledel_fails node0"
  have listed: "RuleList_answer E_ruledel_fails (trace ?b) = Inr [rule1, rule3, rule2]"
    by (simp add: E_ruledel_fails_def E_ok_def)
  have m: "matching K0 [rule1, rule3, rule2] = [rule1, rule2]"
    by (simp add: matching_def K0_def rule1_def rule2_def rule3_def)
  have r: "snd (cleanupRoutes K0 E_ruledel_fails ?b) =
      Some (Wrapf (Error ''EPERM'') ''error deleting the rule %v'' [WRule rule1])"
    by (simp add: cleanupRoutes_def RuleList_call_def listed call_def E_ruledel_fails_def E_ok_def K0_def rule1_def)
  then have run: "cleanupRoutes K0 E_ruledel_fails ?b =
      (fst (cleanupRoutes K0 E_ruledel_fails ?b),
       Some (Wrapf (Error ''EPERM'') ''error deleting the rule %v'' [WRule rule1]))"
    by (simp add: prod_eq_iff)
  from uninstall_rule_cleanup_stops_at_failed_deletion [OF listed run]
  have "Errorf ''Error cleaning the routes %v''
       [LErr (Wrapf (Error ''EPERM'') ''error deleting the rule %v'' [WRule rule1])]
     \<in> set (logged (fst (Stop K0 E_ruledel_fails True node0))) \<and>
   snd (Stop K0 E_ruledel_fails True node0) = None"
    by simp
  then show ?thesis using listed m r by simp
qed

theorem uninstall_rule_cleanup_counterexample:
  "RuleList_answer E_ruledel_fails
     [DelInternalPort ''br-submariner'' ''ovn-k8s-sub0'', DelBridge ''br-submariner''] =
     Inr [rule1, rule3, rule2] \<and>
   Table rule2 = RouteAgentHostNetworkTableID K0 \<and>
   trace (fst (Stop K0 E_ruledel_fails True node0)) =
     [DelInternalPort ''br-submariner'' ''ovn-k8s-sub0'', DelBridge ''br-submariner'', RuleList 2,
      RuleDel rule1,
      FlushRouteTable 149, FlushRouteTable 150,
      ClearChain ''filter'' ''SUBMARINER-FWD'',
      Delete ''filter'' ''FORWARD'' [''-j'', ''SUBMARINER-FWD''],
      DeleteChain ''filter'' ''SUBMARINER-FWD'',
      ClearChain ''nat'' ''SUBMARINER-POSTROUTING'',
      Delete ''nat'' ''POSTROUTING'' [''-j'', ''SUBMARINER-POSTROUTING''],
      DeleteChain ''nat'' ''SUBMARINER-POSTROUTING''] \<and>
   RuleDel rule2 \<notin> set (trace (fst (Stop K0 E_ruledel_fails True node0)))"
proof -
  have tr: "trace (fst (Stop K0 E_ruledel_fails True node0)) =
     [DelInternalPort ''br-submariner'' ''ovn-k8s-sub0'', DelBridge ''br-submariner'', RuleList 2,
      RuleDel rule1,
      FlushRouteTable 149, FlushRouteTable 150,
      ClearChain ''filter'' ''SUBMARINER-FWD'',
      Delete ''filter'' ''FORWARD'' [''-j'', ''SUBMARINER-FWD''],
      DeleteChain ''filter'' ''SUBMARINER-FWD'',
      ClearChain ''nat'' ''SUBMARINER-POSTROUTING'',
      Delete ''nat'' ''POSTROUTING'' [''-j'', ''SUBMARINER-POSTROUTING''],
      DeleteChain ''nat'' ''SUBMARINER-POSTROUTING'']"
    by (simp add: Stop_def Let_def attempt_def call_def klog_def record_step_def cleanupRoutes_def RuleList_call_def
        flushAndDeleteIPTableChains_def K0_def E_ruledel_fails_def E_ok_def node0_def rule1_def)
  show ?thesis
    unfolding tr
    by (simp add: E_ruledel_fails_def E_ok_def K0_def rule1_def rule2_def)
qed

text \<open>
  C7. Chain teardown issues exactly three operations, in this order: clear the Submariner
  chain, delete the jump rule to it from the parent chain, delete the Submariner chain. It
  does so whatever each operation answers, and \<^verbatim>\<open>Stop(true)\<close> ends with the three operations
  on the forward pair of the filter table followed by the three on the post-routing pair of
  the NAT table.
\<close>

theorem chain_teardown_three_operations_in_order:
  "trace (flushAndDeleteIPTableChains E table tableChain submarinerChain s) =
     trace s @ [ClearChain table submarinerChain,
                Delete table tableChain [''-j'', submarinerChain],
                DeleteChain table submarinerChain] \<and>
   suffix [ClearChain (FilterTable K) (forwardingSubmarinerFWDChain K),
           Delete (FilterTable K) (ForwardChain K) [''-j'', forwardingSubmarinerFWDChain K],
           DeleteChain (FilterTable K) (forwardingSubmarinerFWDChain K),
           ClearChain (NATTable K) (SmPostRoutingChain K),
           Delete (NATTable K) (PostRoutingChain K) [''-j'', SmPostRoutingChain K],
           DeleteChain (NATTable K) (SmPostRoutingChain K)]
     (trace (fst (Stop K E True s)))"
proof
  show "trace (flushAndDeleteIPTableChains E table tableChain submarinerChain s) =
     trace s @ [ClearChain table submarinerChain,
                Delete table tableChain [''-j'', submarinerChain],
                DeleteChain table submarinerChain]"
    by (rule flushAndDeleteIPTableChains_trace)
  have "trace (fst (Stop K E True s)) =
      (trace (fst (cleanupRoutes K E (beforeCleanupRoutes K E s))) @
         [FlushRouteTable (RouteAgentInterClusterNetworkTableID K),
          FlushRouteTable (RouteAgentHostNetworkTableID K)]) @
      [ClearChain (FilterTable K) (forwardingSubmarinerFWDChain K),
       Delete (FilterTable K) (ForwardChain K) [''-j'', forwardingSubmarinerFWDChain K],
       DeleteChain (FilterTable K) (forwardingSubmarinerFWDChain K),
       ClearChain (NATTable K) (SmPostRoutingChain K),
       Delete (NATTable K) (PostRoutingChain K) [''-j'', SmPostRoutingChain K],
       DeleteChain (NATTable K) (SmPostRoutingChain K)]"
    by (simp add: Stop_trace_after_cleanup)
  then show "suffix [ClearChain (FilterTable K) (forwardingSubmarinerFWDChain K),
           Delete (FilterTable K) (ForwardChain K) [''-j'', forwardingSubmarinerFWDChain K],
           DeleteChain (FilterTable K) (forwardingSubmarinerFWDChain K),
           ClearChain (NATTable K) (SmPostRoutingChain K),
           Delete (NATTable K) (PostRoutingChain K) [''-j'', SmPostRoutingChain K],
           DeleteChain (NATTable K) (SmPostRoutingChain K)]
     (trace (fst (Stop K E True s)))"
    unfolding suffix_def by blast
qed

theorem chain_teardown_three_operations_in_order_witness:
  "trace (flushAndDeleteIPTableChains E_all_fail ''filter'' ''FORWARD'' ''SUBMARINER-FWD'' node0) =
     [ClearChain ''filter'' ''SUBMARINER-FWD'',
      Delete ''filter'' ''FORWARD'' [''-j'', ''SUBMARINER-FWD''],
      DeleteChain ''filter'' ''SUBMARINER-FWD''] \<and>
   length (logged (flushAndDeleteIPTableChains E_all_fail ''filter'' ''FORWARD'' ''SUBMARINER-FWD'' node0)) = 6 \<and>
   suffix [ClearChain ''filter'' ''SUBMARINER-FWD'',
           Delete ''filter'' ''FORWARD'' [''-j'', ''SUBMARINER-FWD''],
           DeleteChain ''filter'' ''SUBMARINER-FWD'',
           ClearChain ''nat'' ''SUBMARINER-POSTROUTING'',
           Delete ''nat'' ''POSTROUTING'' [''-j'', ''SUBMARINER-POSTROUTING''],
           DeleteChain ''nat'' ''SUBMARINER-POSTROUTING'']
     (trace (fst (Stop K0 E_all_fail True node0)))"
proof -
  have six: "length (logged (flushAndDeleteIPTableChains E_all_fail ''filter'' ''FORWARD'' ''SUBMARINER-FWD'' node0)) = 6"
    by (simp add: flushAndDeleteIPTableChains_def Let_def attempt_def call_def klog_def
        record_step_def E_all_fail_def node0_def)
  show ?thesis
    using chain_teardown_three_operations_in_order
      [of E_all_fail "''filter''" "''FORWARD''" "''SUBMARINER-FWD''" node0 K0] six
    by (simp add: K0_def node0_def)
qed

text \<open>
  C9. \<^verbatim>\<open>Stop(false)\<close> does nothing: it returns nil and the node is the same, so no step is
  taken, nothing is logged, and the remote endpoints, the gateway flag and the cached
  routing interface are as before.
\<close>

theorem Stop_without_uninstall_is_noop: "Stop K E False s = (s, None)"
  by (simp add: Stop_def)

theorem Stop_without_uninstall_is_noop_witness:
  "Stop K0 E_all_fail False node0 = (node0, None) \<and>
   trace (fst (Stop K0 E_all_fail False node0)) = [] \<and>
   logged (fst (Stop K0 E_all_fail False node0)) = []"
  using Stop_without_uninstall_is_noop [of K0 E_all_fail node0]
  by (simp add: node0_def)

section \<open>Facts about the loops over subnets and endpoints\<close>

lemma rangeSubnets_frame:
  "rangeSubnets E op msg subnets s = (s', r) \<Longrightarrow> handler s' = handler s \<and> logged s' = logged s"
proof (induction subnets arbitrary: s)
  case Nil
  then show ?case by simp
next
  case (Cons subnet subnets)
  show ?case
  proof (cases "answer E (handler s) (trace s) (op subnet)")
    case None
    with Cons.prems have "rangeSubnets E op msg subnets (record_step (op subnet) s) = (s', r)"
      by (simp add: call_def)
    from Cons.IH [OF this] show ?thesis by (simp add: record_step_simps)
  next
    case (Some err)
    with Cons.prems show ?thesis by (auto simp: call_def record_step_simps)
  qed
qed

lemma rangeSubnets_exact:
  assumes "rangeSubnets E op msg subnets s = (s', r)"
  shows "case r of
        None \<Rightarrow>
          trace s' = trace s @ map op subnets \<and>
          allSucceed E (handler s) (trace s) (map op subnets)
      | Some err \<Rightarrow>
          (\<exists>before failed rest cause.
             subnets = before @ failed # rest \<and>
             trace s' = trace s @ map op (before @ [failed]) \<and>
             allSucceed E (handler s) (trace s) (map op before) \<and>
             answer E (handler s) (trace s @ map op before) (op failed) = Some cause \<and>
             err = Wrapf cause msg [WStr failed])"
  using assms
proof (induction subnets arbitrary: s)
  case Nil
  then show ?case by auto
next
  case (Cons x m)
  show ?case
  proof (cases "answer E (handler s) (trace s) (op x)")
    case (Some cause)
    with Cons.prems have res: "s' = record_step (op x) s" "r = Some (Wrapf cause msg [WStr x])"
      by (auto simp: call_def)
    have "x # m = [] @ x # m \<and> trace s' = trace s @ map op ([] @ [x]) \<and>
        allSucceed E (handler s) (trace s) (map op []) \<and>
        answer E (handler s) (trace s @ map op []) (op x) = Some cause \<and>
        Wrapf cause msg [WStr x] = Wrapf cause msg [WStr x]"
      using Some res by (simp add: record_step_simps)
    then have "\<exists>before failed rest cause'.
             x # m = before @ failed # rest \<and>
             trace s' = trace s @ map op (before @ [failed]) \<and>
             allSucceed E (handler s) (trace s) (map op before) \<and>
             answer E (handler s) (trace s @ map op before) (op failed) = Some cause' \<and>
             Wrapf cause msg [WStr x] = Wrapf cause' msg [WStr failed]"
      by (intro exI [of _ "[]"] exI [of _ x] exI [of _ m] exI [of _ cause])
    then show ?thesis using res by simp
  next
    case None
    let ?s1 = "record_step (op x) s"
    from None Cons.prems have rec: "rangeSubnets E op msg m ?s1 = (s', r)"
      by (auto simp: call_def)
    note ih = Cons.IH [OF rec]
    show ?thesis
    proof (cases r)
      case rNone: None
      with ih None show ?thesis by (simp add: record_step_simps)
    next
      case (Some err)
      with ih obtain before failed rest cause where
        "m = before @ failed # rest"
        "trace s' = trace ?s1 @ map op (before @ [failed])"
        "allSucceed E (handler ?s1) (trace ?s1) (map op before)"
        "answer E (handler ?s1) (trace ?s1 @ map op before) (op failed) = Some cause"
        "err = Wrapf cause msg [WStr failed]"
        by auto
      then have "x # m = (x # before) @ failed # rest \<and>
          trace s' = trace s @ map op ((x # before) @ [failed]) \<and>
          allSucceed E (handler s) (trace s) (map op (x # before)) \<and>
          answer E (handler s) (trace s @ map op (x # before)) (op failed) = Some cause \<and>
          err = Wrapf cause msg [WStr failed]"
        using None by (simp add: record_step_simps)
      then have "\<exists>before failed rest cause.
             x # m = before @ failed # rest \<and>
             trace s' = trace s @ map op (before @ [failed]) \<and>
             allSucceed E (handler s) (trace s) (map op before) \<and>
             answer E (handler s) (trace s @ map op before) (op failed) = Some cause \<and>
             err = Wrapf cause msg [WStr failed]"
        by (intro exI [of _ "x # before"] exI [of _ failed] exI [of _ rest] exI [of _ cause])
      then show ?thesis using Some by simp
    qed
  qed
qed

lemma rangeSubnets_no_failure:
  assumes "\<forall>h tr subnet. answer E h tr (op subnet) = None"
  shows "rangeSubnets E op msg subnets s = (s\<lparr>trace := trace s @ map op subnets\<rparr>, None)"
  using assms
  by (induction subnets arbitrary: s) (simp_all add: call_def record_step_def)

lemma rangeEndpoints_frame:
  "rangeEndpoints E op msg names s = (s', r) \<Longrightarrow> handler s' = handler s \<and> logged s' = logged s"
proof (induction names arbitrary: s)
  case Nil
  then show ?case by simp
next
  case (Cons name names)
  show ?case
  proof (cases "remoteEndpoints (handler s) name")
    case None
    with Cons show ?thesis by simp
  next
    case (Some endpoint)
    obtain s1 r1 where inner: "rangeSubnets E op msg (Subnets (Spec endpoint)) s = (s1, r1)"
      by (cases "rangeSubnets E op msg (Subnets (Spec endpoint)) s")
    note f1 = rangeSubnets_frame [OF inner]
    show ?thesis
    proof (cases r1)
      case None
      with Cons.prems Some inner have "rangeEndpoints E op msg names s1 = (s', r)" by simp
      from Cons.IH [OF this] f1 show ?thesis by simp
    next
      case (Some err)
      with Cons.prems \<open>remoteEndpoints (handler s) name = Some endpoint\<close> inner f1
      show ?thesis by simp
    qed
  qed
qed

lemma rangeEndpoints_exact:
  assumes "rangeEndpoints E op msg names s = (s', r)"
  shows "case r of
        None \<Rightarrow>
          trace s' = trace s @ natOps op (remoteEndpoints (handler s)) names \<and>
          allSucceed E (handler s) (trace s) (natOps op (remoteEndpoints (handler s)) names)
      | Some err \<Rightarrow>
          (\<exists>before subnet rest cause.
             natOps op (remoteEndpoints (handler s)) names = before @ op subnet # rest \<and>
             trace s' = trace s @ before @ [op subnet] \<and>
             allSucceed E (handler s) (trace s) before \<and>
             answer E (handler s) (trace s @ before) (op subnet) = Some cause \<and>
             err = Wrapf cause msg [WStr subnet])"
  using assms
proof (induction names arbitrary: s)
  case Nil
  then show ?case by (auto simp: natOps_def)
next
  case (Cons name names)
  let ?m = "remoteEndpoints (handler s)"
  show ?case
  proof (cases "?m name")
    case None
    with Cons.prems have rest: "rangeEndpoints E op msg names s = (s', r)" by simp
    have skip: "natOps op ?m (name # names) = natOps op ?m names"
      using None by (simp add: natOps_def)
    show ?thesis unfolding skip by (rule Cons.IH [OF rest])
  next
    case (Some endpoint)
    obtain s1 r1 where inner: "rangeSubnets E op msg (Subnets (Spec endpoint)) s = (s1, r1)"
      by (cases "rangeSubnets E op msg (Subnets (Spec endpoint)) s")
    have h1: "handler s1 = handler s" using rangeSubnets_frame [OF inner] by simp
    note ex1 = rangeSubnets_exact [OF inner]
    have unfold: "natOps op ?m (name # names) = map op (Subnets (Spec endpoint)) @ natOps op ?m names"
      using Some by (simp add: natOps_def)
    show ?thesis
    proof (cases r1)
      case r1None: None
      with ex1 have t1: "trace s1 = trace s @ map op (Subnets (Spec endpoint))"
        and a1: "allSucceed E (handler s) (trace s) (map op (Subnets (Spec endpoint)))"
        by simp_all
      from Cons.prems Some inner r1None have rest: "rangeEndpoints E op msg names s1 = (s', r)"
        by simp
      note ih = Cons.IH [OF rest]
      show ?thesis
      proof (cases r)
        case None
        with ih h1 t1 a1 unfold show ?thesis by (simp add: allSucceed_append)
      next
        case rSome: (Some err)
        with ih h1 t1 obtain before subnet rest' cause where b:
          "natOps op ?m names = before @ op subnet # rest'"
          "trace s' = trace s @ map op (Subnets (Spec endpoint)) @ before @ [op subnet]"
          "allSucceed E (handler s) (trace s @ map op (Subnets (Spec endpoint))) before"
          "answer E (handler s) (trace s @ map op (Subnets (Spec endpoint)) @ before) (op subnet) = Some cause"
          "err = Wrapf cause msg [WStr subnet]"
          by auto
        let ?b = "map op (Subnets (Spec endpoint)) @ before"
        have "natOps op ?m (name # names) = ?b @ op subnet # rest' \<and>
             trace s' = trace s @ ?b @ [op subnet] \<and>
             allSucceed E (handler s) (trace s) ?b \<and>
             answer E (handler s) (trace s @ ?b) (op subnet) = Some cause \<and>
             err = Wrapf cause msg [WStr subnet]"
          using b a1 unfold by (simp add: allSucceed_append)
        then have "\<exists>before subnet rest cause.
             natOps op ?m (name # names) = before @ op subnet # rest \<and>
             trace s' = trace s @ before @ [op subnet] \<and>
             allSucceed E (handler s) (trace s) before \<and>
             answer E (handler s) (trace s @ before) (op subnet) = Some cause \<and>
             err = Wrapf cause msg [WStr subnet]"
          by (intro exI [of _ ?b] exI [of _ subnet] exI [of _ rest'] exI [of _ cause])
        then show ?thesis using rSome by simp
      qed
    next
      case r1Some: (Some err1)
      with Cons.prems Some inner have res: "s' = s1" "r = Some err1" by auto
      from ex1 r1Some obtain before failed rest' cause where b:
        "Subnets (Spec endpoint) = before @ failed # rest'"
        "trace s1 = trace s @ map op (before @ [failed])"
        "allSucceed E (handler s) (trace s) (map op before)"
        "answer E (handler s) (trace s @ map op before) (op failed) = Some cause"
        "err1 = Wrapf cause msg [WStr failed]"
        by auto
      let ?rest = "map op rest' @ natOps op ?m names"
      have "natOps op ?m (name # names) = map op before @ op failed # ?rest \<and>
             trace s' = trace s @ map op before @ [op failed] \<and>
             allSucceed E (handler s) (trace s) (map op before) \<and>
             answer E (handler s) (trace s @ map op before) (op failed) = Some cause \<and>
             err1 = Wrapf cause msg [WStr failed]"
        using b res unfold by simp
      then have "\<exists>before subnet rest cause.
             natOps op ?m (name # names) = before @ op subnet # rest \<and>
             trace s' = trace s @ before @ [op subnet] \<and>
             allSucceed E (handler s) (trace s) before \<and>
             answer E (handler s) (trace s @ before) (op subnet) = Some cause \<and>
             err1 = Wrapf cause msg [WStr subnet]"
        by (intro exI [of _ "map op before"] exI [of _ failed] exI [of _ ?rest] exI [of _ cause])
      then show ?thesis using res by simp
    qed
  qed
qed

lemma rangeEndpoints_no_failure:
  assumes "\<forall>h tr subnet. answer E h tr (op subnet) = None"
  shows "rangeEndpoints E op msg names s =
           (s\<lparr>trace := trace s @ natOps op (remoteEndpoints (handler s)) names\<rparr>, None)"
proof (induction names arbitrary: s)
  case Nil
  then show ?case by (simp add: natOps_def)
next
  case (Cons name names)
  show ?case
    by (cases "remoteEndpoints (handler s) name")
       (simp_all add: Cons.IH rangeSubnets_no_failure [OF assms] natOps_def)
qed

lemma length_natOps:
  assumes "distinct names" and "set names = dom m"
  shows "length (natOps op m names) = (\<Sum>name\<in>dom m. length (Subnets (Spec (the (m name)))))"
proof -
  have "length (natOps op m names) =
      sum_list (map (\<lambda>name. length (case m name of None \<Rightarrow> [] | Some endpoint \<Rightarrow> map op (Subnets (Spec endpoint)))) names)"
    by (simp add: natOps_def length_concat comp_def)
  also have "\<dots> = (\<Sum>name\<in>set names. length (case m name of None \<Rightarrow> [] | Some endpoint \<Rightarrow> map op (Subnets (Spec endpoint))))"
    using assms(1) by (simp add: sum_list_distinct_conv_sum_set)
  also have "\<dots> = (\<Sum>name\<in>dom m. length (Subnets (Spec (the (m name)))))"
    unfolding assms(2) by (rule sum.cong) auto
  finally show ?thesis .
qed

lemma natOps_covers:
  assumes "set names = dom m" and "m name = Some endpoint" and "subnet \<in> set (Subnets (Spec endpoint))"
  shows "op subnet \<in> set (natOps op m names)"
proof -
  have "name \<in> set names" using assms(1,2) by blast
  moreover have "op subnet \<in> set (case m name of None \<Rightarrow> [] | Some endpoint \<Rightarrow> map op (Subnets (Spec endpoint)))"
    using assms(2,3) by simp
  ultimately show ?thesis
    unfolding natOps_def set_concat set_map by blast
qed

section \<open>The role transitions\<close>

lemma locked_eq:
  "locked body s = (s', r) \<Longrightarrow>
     \<exists>s1. body (record_step MutexLock s) = (s1, r) \<and> s' = record_step MutexUnlock s1"
  by (auto simp: locked_def split: prod.splits)

lemma setIsGateway_simps:
  "handler (setIsGateway b s) = (handler s)\<lparr>isGateway := b\<rparr>"
  "trace (setIsGateway b s) = trace s @ [SetIsGateway b]"
  "logged (setIsGateway b s) = logged s"
  by (simp_all add: setIsGateway_def record_step_def)

lemma transition_exact:
  assumes run: "locked (\<lambda>s. let s = setIsGateway b s in
                     case rangeEndpoints E op msg names s of
                       (s, Some err) \<Rightarrow> (s, Some err)
                     | (s, None) \<Rightarrow> call E fin s) s = (s', r)"
  shows "handler s' = (handler s)\<lparr>isGateway := b\<rparr> \<and>
     (allSucceed E ((handler s)\<lparr>isGateway := b\<rparr>) (trace s @ [MutexLock, SetIsGateway b])
        (natOps op (remoteEndpoints (handler s)) names) \<and>
      trace s' = trace s @ [MutexLock, SetIsGateway b] @
                   natOps op (remoteEndpoints (handler s)) names @ [fin, MutexUnlock] \<and>
      r = answer E ((handler s)\<lparr>isGateway := b\<rparr>)
            (trace s @ [MutexLock, SetIsGateway b] @ natOps op (remoteEndpoints (handler s)) names) fin
      \<or>
      (\<exists>before subnet rest cause.
         natOps op (remoteEndpoints (handler s)) names = before @ op subnet # rest \<and>
         allSucceed E ((handler s)\<lparr>isGateway := b\<rparr>) (trace s @ [MutexLock, SetIsGateway b]) before \<and>
         answer E ((handler s)\<lparr>isGateway := b\<rparr>)
           (trace s @ [MutexLock, SetIsGateway b] @ before) (op subnet) = Some cause \<and>
         trace s' = trace s @ [MutexLock, SetIsGateway b] @ before @ [op subnet, MutexUnlock] \<and>
         r = Some (Wrapf cause msg [WStr subnet])))"
proof -
  let ?s1 = "setIsGateway b (record_step MutexLock s)"
  let ?h = "(handler s)\<lparr>isGateway := b\<rparr>"
  let ?t = "trace s @ [MutexLock, SetIsGateway b]"
  let ?nat = "natOps op (remoteEndpoints (handler s)) names"
  obtain s2 r2 where loop: "rangeEndpoints E op msg names ?s1 = (s2, r2)"
    by (cases "rangeEndpoints E op msg names ?s1")
  have h1: "handler ?s1 = ?h" and t1: "trace ?s1 = ?t"
    by (simp_all add: setIsGateway_simps record_step_simps)
  have m1: "remoteEndpoints (handler ?s1) = remoteEndpoints (handler s)"
    by (simp add: h1)
  from rangeEndpoints_frame [OF loop] have h2: "handler s2 = ?h" using h1 by simp
  note ex = rangeEndpoints_exact [OF loop, unfolded m1 h1 t1]
  from locked_eq [OF run] obtain s3 where body:
    "(case rangeEndpoints E op msg names ?s1 of
        (s, Some err) \<Rightarrow> (s, Some err)
      | (s, None) \<Rightarrow> call E fin s) = (s3, r)"
    "s' = record_step MutexUnlock s3"
    by (auto simp: Let_def)
  show ?thesis
  proof (cases r2)
    case None
    with ex have t2: "trace s2 = ?t @ ?nat" and ok: "allSucceed E ?h ?t ?nat" by simp_all
    from body loop None have "s3 = record_step fin s2" "r = answer E (handler s2) (trace s2) fin"
      by (simp_all add: call_def)
    with body(2) t2 h2 ok
    have "handler s' = ?h \<and> allSucceed E ?h ?t ?nat \<and> trace s' = ?t @ ?nat @ [fin, MutexUnlock] \<and>
        r = answer E ?h (?t @ ?nat) fin"
      by (simp add: record_step_simps)
    then show ?thesis by simp
  next
    case (Some err)
    with body loop have res: "s3 = s2" "r = Some err" by simp_all
    from ex Some obtain before subnet rest cause where b:
      "?nat = before @ op subnet # rest"
      "trace s2 = ?t @ before @ [op subnet]"
      "allSucceed E ?h ?t before"
      "answer E ?h (?t @ before) (op subnet) = Some cause"
      "err = Wrapf cause msg [WStr subnet]"
      by auto
    have "?nat = before @ op subnet # rest \<and>
         allSucceed E ?h ?t before \<and>
         answer E ?h (trace s @ [MutexLock, SetIsGateway b] @ before) (op subnet) = Some cause \<and>
         trace s' = trace s @ [MutexLock, SetIsGateway b] @ before @ [op subnet, MutexUnlock] \<and>
         r = Some (Wrapf cause msg [WStr subnet])"
      using b res body(2) by (simp add: record_step_simps)
    then have "\<exists>before subnet rest cause.
         ?nat = before @ op subnet # rest \<and>
         allSucceed E ?h ?t before \<and>
         answer E ?h (trace s @ [MutexLock, SetIsGateway b] @ before) (op subnet) = Some cause \<and>
         trace s' = trace s @ [MutexLock, SetIsGateway b] @ before @ [op subnet, MutexUnlock] \<and>
         r = Some (Wrapf cause msg [WStr subnet])"
      by (intro exI [of _ before] exI [of _ subnet] exI [of _ rest] exI [of _ cause])
    moreover have "handler s' = ?h" using body(2) res h2 by (simp add: record_step_simps)
    ultimately show ?thesis by (intro conjI disjI2)
  qed
qed

lemma transition_no_failure:
  assumes "\<forall>h tr subnet. answer E h tr (op subnet) = None"
  shows "trace (fst (locked (\<lambda>s. let s = setIsGateway b s in
                     case rangeEndpoints E op msg names s of
                       (s, Some err) \<Rightarrow> (s, Some err)
                     | (s, None) \<Rightarrow> call E fin s) s)) =
         trace s @ [MutexLock, SetIsGateway b] @ natOps op (remoteEndpoints (handler s)) names @
           [fin, MutexUnlock]"
  by (simp add: locked_def Let_def rangeEndpoints_no_failure [OF assms] call_def
      setIsGateway_simps record_step_simps split: prod.split)

lemma nodeAB_keys: "set [''A'', ''B''] = dom (remoteEndpoints (handler nodeAB))"
  by (auto simp: nodeAB_def node0_def)

text \<open>
  C1 (as the code has it). \<^verbatim>\<open>TransitionToGateway\<close> (respectively \<^verbatim>\<open>TransitionToNonGateway\<close>)
  takes the lock and writes the gateway flag first. Only then does it go through the remote
  endpoints, issuing the no-masquerade add (respectively remove) for the subnets in order.
  Either every operation is answered with nil: then all of them are issued,
  \<^verbatim>\<open>updateGatewayDataplane\<close> (respectively \<^verbatim>\<open>cleanupGatewayDataplane\<close>) is called next and its
  answer is the result. Or the operations before some operation are answered with nil and
  that one fails: then nothing is issued after it and the result is its cause, wrapped with
  the subnet. So every no-masquerade operation is issued after the flag write, none after the
  reconciliation call, and the flag has its new value in every outcome. With \<open>names\<close> listing
  the keys of the map, the operations cover every subnet of every known endpoint.
\<close>

theorem transition_sets_flag_before_nat_exemption:
  assumes keys: "set names = dom (remoteEndpoints (handler s))"
      and gw: "TransitionToGateway E names s = (sg, rg)"
      and ngw: "TransitionToNonGateway E names s = (sn, rn)"
  shows "handler sg = (handler s)\<lparr>isGateway := True\<rparr> \<and>
     (allSucceed E ((handler s)\<lparr>isGateway := True\<rparr>) (trace s @ [MutexLock, SetIsGateway True])
        (natOps addNoMasqueradeIPTables (remoteEndpoints (handler s)) names) \<and>
      trace sg = trace s @ [MutexLock, SetIsGateway True] @
                   natOps addNoMasqueradeIPTables (remoteEndpoints (handler s)) names @
                   [updateGatewayDataplane, MutexUnlock] \<and>
      rg = answer E ((handler s)\<lparr>isGateway := True\<rparr>)
             (trace s @ [MutexLock, SetIsGateway True] @
                natOps addNoMasqueradeIPTables (remoteEndpoints (handler s)) names)
             updateGatewayDataplane
      \<or>
      (\<exists>before subnet rest cause.
         natOps addNoMasqueradeIPTables (remoteEndpoints (handler s)) names =
           before @ addNoMasqueradeIPTables subnet # rest \<and>
         allSucceed E ((handler s)\<lparr>isGateway := True\<rparr>) (trace s @ [MutexLock, SetIsGateway True])
           before \<and>
         answer E ((handler s)\<lparr>isGateway := True\<rparr>)
           (trace s @ [MutexLock, SetIsGateway True] @ before)
           (addNoMasqueradeIPTables subnet) = Some cause \<and>
         trace sg = trace s @ [MutexLock, SetIsGateway True] @ before @
                      [addNoMasqueradeIPTables subnet, MutexUnlock] \<and>
         rg = Some (Wrapf cause ''error adding no-masquerade rules for subnet %q'' [WStr subnet]))) \<and>
     handler sn = (handler s)\<lparr>isGateway := False\<rparr> \<and>
     (allSucceed E ((handler s)\<lparr>isGateway := False\<rparr>) (trace s @ [MutexLock, SetIsGateway False])
        (natOps removeNoMasqueradeIPTables (remoteEndpoints (handler s)) names) \<and>
      trace sn = trace s @ [MutexLock, SetIsGateway False] @
                   natOps removeNoMasqueradeIPTables (remoteEndpoints (handler s)) names @
                   [cleanupGatewayDataplane, MutexUnlock] \<and>
      rn = answer E ((handler s)\<lparr>isGateway := False\<rparr>)
             (trace s @ [MutexLock, SetIsGateway False] @
                natOps removeNoMasqueradeIPTables (remoteEndpoints (handler s)) names)
             cleanupGatewayDataplane
      \<or>
      (\<exists>before subnet rest cause.
         natOps removeNoMasqueradeIPTables (remoteEndpoints (handler s)) names =
           before @ removeNoMasqueradeIPTables subnet # rest \<and>
         allSucceed E ((handler s)\<lparr>isGateway := False\<rparr>) (trace s @ [MutexLock, SetIsGateway False])
           before \<and>
         answer E ((handler s)\<lparr>isGateway := False\<rparr>)
           (trace s @ [MutexLock, SetIsGateway False] @ before)
           (removeNoMasqueradeIPTables subnet) = Some cause \<and>
         trace sn = trace s @ [MutexLock, SetIsGateway False] @ before @
                      [removeNoMasqueradeIPTables subnet, MutexUnlock] \<and>
         rn = Some (Wrapf cause ''error removing no-masquerade rules for subnet %q'' [WStr subnet]))) \<and>
     (\<forall>name endpoint subnet.
        remoteEndpoints (handler s) name = Some endpoint \<and> subnet \<in> set (Subnets (Spec endpoint)) \<longrightarrow>
        addNoMasqueradeIPTables subnet
          \<in> set (natOps addNoMasqueradeIPTables (remoteEndpoints (handler s)) names) \<and>
        removeNoMasqueradeIPTables subnet
          \<in> set (natOps removeNoMasqueradeIPTables (remoteEndpoints (handler s)) names))"
proof -
  note a = transition_exact [OF gw [unfolded TransitionToGateway_def]]
  note b = transition_exact [OF ngw [unfolded TransitionToNonGateway_def]]
  have c: "\<forall>name endpoint subnet.
        remoteEndpoints (handler s) name = Some endpoint \<and> subnet \<in> set (Subnets (Spec endpoint)) \<longrightarrow>
        addNoMasqueradeIPTables subnet
          \<in> set (natOps addNoMasqueradeIPTables (remoteEndpoints (handler s)) names) \<and>
        removeNoMasqueradeIPTables subnet
          \<in> set (natOps removeNoMasqueradeIPTables (remoteEndpoints (handler s)) names)"
    using natOps_covers [OF keys] by blast
  from a b c show ?thesis by (intro conjI) (rule conjunct1, assumption, rule conjunct2, assumption,
      rule conjunct1, assumption, rule conjunct2, assumption, assumption)
qed

theorem transition_sets_flag_before_nat_exemption_witness:
  "set [''A'', ''B''] = dom (remoteEndpoints (handler nodeAB)) \<and>
   snd (TransitionToGateway E_add_fails [''A'', ''B''] nodeAB) =
     Some (Wrapf (Error ''iptables'') ''error adding no-masquerade rules for subnet %q''
             [WStr ''10.2.0.0/24'']) \<and>
   handler (fst (TransitionToGateway E_add_fails [''A'', ''B''] nodeAB)) =
     (handler nodeAB)\<lparr>isGateway := True\<rparr> \<and>
   handler (fst (TransitionToNonGateway E_add_fails [''A'', ''B''] nodeAB)) =
     (handler nodeAB)\<lparr>isGateway := False\<rparr> \<and>
   trace (fst (TransitionToNonGateway E_add_fails [''A'', ''B''] nodeAB)) =
     [MutexLock, SetIsGateway False, removeNoMasqueradeIPTables ''10.1.0.0/24'',
      removeNoMasqueradeIPTables ''10.2.0.0/24'', cleanupGatewayDataplane, MutexUnlock]"
proof -
  have gw: "TransitionToGateway E_add_fails [''A'', ''B''] nodeAB =
      (fst (TransitionToGateway E_add_fails [''A'', ''B''] nodeAB),
       snd (TransitionToGateway E_add_fails [''A'', ''B''] nodeAB))"
    by simp
  have ngw: "TransitionToNonGateway E_add_fails [''A'', ''B''] nodeAB =
      (fst (TransitionToNonGateway E_add_fails [''A'', ''B''] nodeAB),
       snd (TransitionToNonGateway E_add_fails [''A'', ''B''] nodeAB))"
    by simp
  from transition_sets_flag_before_nat_exemption [OF nodeAB_keys gw ngw]
  have "handler (fst (TransitionToGateway E_add_fails [''A'', ''B''] nodeAB)) =
     (handler nodeAB)\<lparr>isGateway := True\<rparr> \<and>
   handler (fst (TransitionToNonGateway E_add_fails [''A'', ''B''] nodeAB)) =
     (handler nodeAB)\<lparr>isGateway := False\<rparr>"
    by blast
  moreover have "snd (TransitionToGateway E_add_fails [''A'', ''B''] nodeAB) =
     Some (Wrapf (Error ''iptables'') ''error adding no-masquerade rules for subnet %q''
             [WStr ''10.2.0.0/24''])"
    by (simp add: TransitionToGateway_def locked_def setIsGateway_def record_step_def call_def
        Let_def nodeAB_def node0_def endpointA_def endpointB_def E_add_fails_def E_ok_def)
  moreover have "trace (fst (TransitionToNonGateway E_add_fails [''A'', ''B''] nodeAB)) =
     [MutexLock, SetIsGateway False, removeNoMasqueradeIPTables ''10.1.0.0/24'',
      removeNoMasqueradeIPTables ''10.2.0.0/24'', cleanupGatewayDataplane, MutexUnlock]"
    by (simp add: TransitionToNonGateway_def locked_def setIsGateway_def record_step_def call_def
        Let_def nodeAB_def node0_def endpointA_def endpointB_def E_add_fails_def E_ok_def)
  ultimately show ?thesis using nodeAB_keys by blast
qed

theorem transition_flag_order_counterexample:
  "\<not> isGateway (handler nodeAB) \<and>
   trace (fst (TransitionToGateway E_ok [''A'', ''B''] nodeAB)) =
     [MutexLock, SetIsGateway True, addNoMasqueradeIPTables ''10.1.0.0/24'',
      addNoMasqueradeIPTables ''10.2.0.0/24'', updateGatewayDataplane, MutexUnlock] \<and>
   snd (TransitionToGateway E_add_fails [''A'', ''B''] nodeAB) =
     Some (Wrapf (Error ''iptables'') ''error adding no-masquerade rules for subnet %q''
             [WStr ''10.2.0.0/24'']) \<and>
   trace (fst (TransitionToGateway E_add_fails [''A'', ''B''] nodeAB)) =
     [MutexLock, SetIsGateway True, addNoMasqueradeIPTables ''10.1.0.0/24'',
      addNoMasqueradeIPTables ''10.2.0.0/24'', MutexUnlock] \<and>
   isGateway (handler (fst (TransitionToGateway E_add_fails [''A'', ''B''] nodeAB)))"
  by (simp add: TransitionToGateway_def locked_def setIsGateway_def record_step_def call_def
      Let_def nodeAB_def node0_def endpointA_def endpointB_def E_add_fails_def E_ok_def)

text \<open>
  C4. With \<open>names\<close> listing each key of the map once, a transition in which no per-subnet
  operation fails issues exactly the operations \<open>natOps\<close>, one per subnet of each known
  endpoint, between the flag write and the reconciliation call; their number is the sum of
  the numbers of subnets of the endpoints.
\<close>

theorem transition_issues_one_operation_per_subnet:
  assumes "distinct names" and "set names = dom (remoteEndpoints (handler s))"
  shows "((\<forall>h tr subnet. answer E h tr (addNoMasqueradeIPTables subnet) = None) \<longrightarrow>
            trace (fst (TransitionToGateway E names s)) =
              trace s @ [MutexLock, SetIsGateway True] @
              natOps addNoMasqueradeIPTables (remoteEndpoints (handler s)) names @
              [updateGatewayDataplane, MutexUnlock]) \<and>
         ((\<forall>h tr subnet. answer E h tr (removeNoMasqueradeIPTables subnet) = None) \<longrightarrow>
            trace (fst (TransitionToNonGateway E names s)) =
              trace s @ [MutexLock, SetIsGateway False] @
              natOps removeNoMasqueradeIPTables (remoteEndpoints (handler s)) names @
              [cleanupGatewayDataplane, MutexUnlock]) \<and>
         length (natOps addNoMasqueradeIPTables (remoteEndpoints (handler s)) names) =
           (\<Sum>name\<in>dom (remoteEndpoints (handler s)).
              length (Subnets (Spec (the (remoteEndpoints (handler s) name))))) \<and>
         length (natOps removeNoMasqueradeIPTables (remoteEndpoints (handler s)) names) =
           (\<Sum>name\<in>dom (remoteEndpoints (handler s)).
              length (Subnets (Spec (the (remoteEndpoints (handler s) name)))))"
  using transition_no_failure [where E = E and op = addNoMasqueradeIPTables and b = True
        and names = names and fin = updateGatewayDataplane and s = s]
    transition_no_failure [where E = E and op = removeNoMasqueradeIPTables and b = False
        and names = names and fin = cleanupGatewayDataplane and s = s]
    length_natOps [OF assms]
  by (simp add: TransitionToGateway_def TransitionToNonGateway_def)

theorem transition_issues_one_operation_per_subnet_witness:
  "distinct [''A'', ''B''] \<and>
   set [''A'', ''B''] = dom (remoteEndpoints (handler nodeAB)) \<and>
   (\<forall>h tr subnet. answer E_ok h tr (addNoMasqueradeIPTables subnet) = None) \<and>
   (\<forall>h tr subnet. answer E_ok h tr (removeNoMasqueradeIPTables subnet) = None) \<and>
   trace (fst (TransitionToGateway E_ok [''A'', ''B''] nodeAB)) =
     [MutexLock, SetIsGateway True, addNoMasqueradeIPTables ''10.1.0.0/24'',
      addNoMasqueradeIPTables ''10.2.0.0/24'', updateGatewayDataplane, MutexUnlock] \<and>
   trace (fst (TransitionToNonGateway E_ok [''A'', ''B''] nodeAB)) =
     [MutexLock, SetIsGateway False, removeNoMasqueradeIPTables ''10.1.0.0/24'',
      removeNoMasqueradeIPTables ''10.2.0.0/24'', cleanupGatewayDataplane, MutexUnlock] \<and>
   (\<Sum>name\<in>dom (remoteEndpoints (handler nodeAB)).
      length (Subnets (Spec (the (remoteEndpoints (handler nodeAB) name))))) = 2"
proof -
  have d: "distinct [''A'', ''B'']" by simp
  have ok: "\<forall>h tr subnet. answer E_ok h tr (addNoMasqueradeIPTables subnet) = None"
    "\<forall>h tr subnet. answer E_ok h tr (removeNoMasqueradeIPTables subnet) = None"
    by (simp_all add: E_ok_def)
  have ops: "natOps addNoMasqueradeIPTables (remoteEndpoints (handler nodeAB)) [''A'', ''B''] =
      [addNoMasqueradeIPTables ''10.1.0.0/24'', addNoMasqueradeIPTables ''10.2.0.0/24'']"
    "natOps removeNoMasqueradeIPTables (remoteEndpoints (handler nodeAB)) [''A'', ''B''] =
      [removeNoMasqueradeIPTables ''10.1.0.0/24'', removeNoMasqueradeIPTables ''10.2.0.0/24'']"
    by (simp_all add: natOps_def nodeAB_def node0_def endpointA_def endpointB_def)
  have tr0: "trace nodeAB = []" by (simp add: nodeAB_def node0_def)
  from transition_issues_one_operation_per_subnet [OF d nodeAB_keys, of E_ok] ok
  show ?thesis using d nodeAB_keys by (simp add: ops tr0)
qed

section \<open>The endpoint events\<close>

lemma setRemoteEndpoint_simps:
  "handler (setRemoteEndpoint name endpoint s) =
     (handler s)\<lparr>remoteEndpoints := (remoteEndpoints (handler s))(name \<mapsto> endpoint)\<rparr>"
  "trace (setRemoteEndpoint name endpoint s) = trace s @ [SetRemoteEndpoint name endpoint]"
  "logged (setRemoteEndpoint name endpoint s) = logged s"
  by (simp_all add: setRemoteEndpoint_def record_step_def)

lemma deleteRemoteEndpoint_simps:
  "handler (deleteRemoteEndpoint name s) =
     (handler s)\<lparr>remoteEndpoints := (remoteEndpoints (handler s))(name := None)\<rparr>"
  "trace (deleteRemoteEndpoint name s) = trace s @ [DeleteRemoteEndpoint name]"
  "logged (deleteRemoteEndpoint name s) = logged s"
  by (simp_all add: deleteRemoteEndpoint_def record_step_def)

text \<open>
  What follows the map write in the three remote-endpoint methods: host-network
  reconciliation, then, in gateway role, the optional loop and gateway reconciliation. None
  of it writes a field of the handler.
\<close>

lemma after_write_frame:
  assumes "(case call E updateHostNetworkDataplane s of
              (s, Some err) \<Rightarrow> (s, Some (Wrapf err msg []))
            | (s, None) \<Rightarrow>
                if isGateway (handler s)
                then (case rangeSubnets E op msg' subnets s of
                        (s, Some err) \<Rightarrow> (s, Some err)
                      | (s, None) \<Rightarrow> call E updateGatewayDataplane s)
                else (s, None)) = (s', r)"
  shows "handler s' = handler s"
proof (cases "answer E (handler s) (trace s) updateHostNetworkDataplane")
  case (Some err)
  with assms show ?thesis by (auto simp: call_def record_step_simps)
next
  case None
  let ?s1 = "record_step updateHostNetworkDataplane s"
  show ?thesis
  proof (cases "isGateway (handler s)")
    case False
    with None assms show ?thesis by (auto simp: call_def record_step_simps)
  next
    case True
    obtain s2 r2 where loop: "rangeSubnets E op msg' subnets ?s1 = (s2, r2)"
      by (cases "rangeSubnets E op msg' subnets ?s1")
    from rangeSubnets_frame [OF loop] have h2: "handler s2 = handler s"
      by (simp add: record_step_simps)
    show ?thesis
    proof (cases r2)
      case None
      with \<open>answer E (handler s) (trace s) updateHostNetworkDataplane = None\<close> True loop assms
      have "s' = record_step updateGatewayDataplane s2"
        by (simp add: call_def record_step_simps)
      with h2 show ?thesis by (simp add: record_step_simps)
    next
      case (Some err)
      with \<open>answer E (handler s) (trace s) updateHostNetworkDataplane = None\<close> True loop assms
      have "s' = s2"
        by (simp add: call_def record_step_simps)
      with h2 show ?thesis by simp
    qed
  qed
qed

lemma RemoteEndpointCreated_handler:
  assumes "OverlappingSubnets E (ServiceCIDR (handler s)) (ClusterCIDR (handler s))
             (Subnets (Spec endpoint)) = None"
  shows "handler (fst (RemoteEndpointCreated E endpoint s)) =
     (handler s)\<lparr>remoteEndpoints := (remoteEndpoints (handler s))(Name endpoint \<mapsto> endpoint)\<rparr>"
proof -
  let ?s1 = "setRemoteEndpoint (Name endpoint) endpoint (record_step MutexLock s)"
  obtain s2 r where body:
    "(case call E updateHostNetworkDataplane ?s1 of
              (s, Some err) \<Rightarrow> (s, Some (Wrapf err ''updateHostNetworkDataplane returned error'' []))
            | (s, None) \<Rightarrow>
                if isGateway (handler s)
                then (case rangeSubnets E addNoMasqueradeIPTables
                             ''error adding no-masquerade rules for subnet %q''
                             (Subnets (Spec endpoint)) s of
                        (s, Some err) \<Rightarrow> (s, Some err)
                      | (s, None) \<Rightarrow> call E updateGatewayDataplane s)
                else (s, None)) = (s2, r)"
    by (rule prod.exhaust)
  from after_write_frame [OF body] have "handler s2 = handler ?s1" .
  moreover have "RemoteEndpointCreated E endpoint s = (record_step MutexUnlock s2, r)"
    using assms body by (simp add: RemoteEndpointCreated_def locked_def Let_def)
  ultimately show ?thesis
    by (simp add: record_step_simps setRemoteEndpoint_simps)
qed

lemma RemoteEndpointUpdated_handler:
  assumes "OverlappingSubnets E (ServiceCIDR (handler s)) (ClusterCIDR (handler s))
             (Subnets (Spec endpoint)) = None"
  shows "handler (fst (RemoteEndpointUpdated E endpoint s)) =
     (handler s)\<lparr>remoteEndpoints := (remoteEndpoints (handler s))(Name endpoint \<mapsto> endpoint)\<rparr>"
  using assms
  by (simp add: RemoteEndpointUpdated_def locked_def Let_def call_def record_step_simps
      setRemoteEndpoint_simps split: option.split)

lemma RemoteEndpointRemoved_handler:
  "handler (fst (RemoteEndpointRemoved E endpoint s)) =
     (handler s)\<lparr>remoteEndpoints := (remoteEndpoints (handler s))(Name endpoint := None)\<rparr>"
proof -
  let ?s1 = "deleteRemoteEndpoint (Name endpoint) (record_step MutexLock s)"
  obtain s2 r where body:
    "(case call E updateHostNetworkDataplane ?s1 of
              (s, Some err) \<Rightarrow> (s, Some (Wrapf err ''updateHostNetworkDataplane returned error'' []))
            | (s, None) \<Rightarrow>
                if isGateway (handler s)
                then (case rangeSubnets E removeNoMasqueradeIPTables
                             ''error removing no-masquerade rules for subnet %q''
                             (Subnets (Spec endpoint)) s of
                        (s, Some err) \<Rightarrow> (s, Some err)
                      | (s, None) \<Rightarrow> call E updateGatewayDataplane s)
                else (s, None)) = (s2, r)"
    by (rule prod.exhaust)
  from after_write_frame [OF body] have "handler s2 = handler ?s1" .
  moreover have "RemoteEndpointRemoved E endpoint s = (record_step MutexUnlock s2, r)"
    using body by (simp add: RemoteEndpointRemoved_def locked_def Let_def)
  ultimately show ?thesis
    by (simp add: record_step_simps deleteRemoteEndpoint_simps)
qed

lemma overlap_returns_nil:
  assumes "OverlappingSubnets E (ServiceCIDR (handler s)) (ClusterCIDR (handler s))
             (Subnets (Spec endpoint)) = Some e"
  shows "snd (RemoteEndpointCreated E endpoint s) = None"
    and "snd (RemoteEndpointUpdated E endpoint s) = None"
  using assms by (simp_all add: RemoteEndpointCreated_def RemoteEndpointUpdated_def)

text \<open>
  C10. When \<^verbatim>\<open>RemoteEndpointCreated\<close>, \<^verbatim>\<open>RemoteEndpointUpdated\<close> or \<^verbatim>\<open>RemoteEndpointRemoved\<close>
  returns an error, the write to the map of remote endpoints has been made and stays: after
  an erroring create or update the map is the old one with the endpoint stored under its
  name, after an erroring remove it is the old one without that name.
\<close>

theorem endpoint_set_write_survives_error:
  "(RemoteEndpointCreated E endpoint s = (s1, Some err1) \<longrightarrow>
      remoteEndpoints (handler s1) = (remoteEndpoints (handler s))(Name endpoint \<mapsto> endpoint)) \<and>
   (RemoteEndpointUpdated E endpoint s = (s2, Some err2) \<longrightarrow>
      remoteEndpoints (handler s2) = (remoteEndpoints (handler s))(Name endpoint \<mapsto> endpoint)) \<and>
   (RemoteEndpointRemoved E endpoint s = (s3, Some err3) \<longrightarrow>
      remoteEndpoints (handler s3) = (remoteEndpoints (handler s))(Name endpoint := None))"
proof (intro conjI impI)
  assume run: "RemoteEndpointCreated E endpoint s = (s1, Some err1)"
  have "OverlappingSubnets E (ServiceCIDR (handler s)) (ClusterCIDR (handler s))
             (Subnets (Spec endpoint)) = None"
  proof (rule ccontr)
    assume "OverlappingSubnets E (ServiceCIDR (handler s)) (ClusterCIDR (handler s))
             (Subnets (Spec endpoint)) \<noteq> None"
    then obtain e where "OverlappingSubnets E (ServiceCIDR (handler s)) (ClusterCIDR (handler s))
             (Subnets (Spec endpoint)) = Some e" by blast
    from overlap_returns_nil(1) [OF this] run show False by simp
  qed
  from RemoteEndpointCreated_handler [OF this] run
  show "remoteEndpoints (handler s1) = (remoteEndpoints (handler s))(Name endpoint \<mapsto> endpoint)"
    by simp
next
  assume run: "RemoteEndpointUpdated E endpoint s = (s2, Some err2)"
  have "OverlappingSubnets E (ServiceCIDR (handler s)) (ClusterCIDR (handler s))
             (Subnets (Spec endpoint)) = None"
  proof (rule ccontr)
    assume "OverlappingSubnets E (ServiceCIDR (handler s)) (ClusterCIDR (handler s))
             (Subnets (Spec endpoint)) \<noteq> None"
    then obtain e where "OverlappingSubnets E (ServiceCIDR (handler s)) (ClusterCIDR (handler s))
             (Subnets (Spec endpoint)) = Some e" by blast
    from overlap_returns_nil(2) [OF this] run show False by simp
  qed
  from RemoteEndpointUpdated_handler [OF this] run
  show "remoteEndpoints (handler s2) = (remoteEndpoints (handler s))(Name endpoint \<mapsto> endpoint)"
    by simp
next
  assume run: "RemoteEndpointRemoved E endpoint s = (s3, Some err3)"
  from RemoteEndpointRemoved_handler [of E endpoint s] run
  show "remoteEndpoints (handler s3) = (remoteEndpoints (handler s))(Name endpoint := None)"
    by simp
qed

theorem endpoint_set_write_survives_error_witness:
  "snd (RemoteEndpointCreated E_add_fails endpointB nodeGW) =
     Some (Wrapf (Error ''iptables'') ''error adding no-masquerade rules for subnet %q''
             [WStr ''10.2.0.0/24'']) \<and>
   remoteEndpoints (handler (fst (RemoteEndpointCreated E_add_fails endpointB nodeGW))) ''B'' =
     Some endpointB \<and>
   snd (RemoteEndpointUpdated E_host_fails endpointA2 nodeGW) =
     Some (Wrapf (Error ''netlink'') ''updateHostNetworkDataplane returned error'' []) \<and>
   remoteEndpoints (handler (fst (RemoteEndpointUpdated E_host_fails endpointA2 nodeGW))) ''A'' =
     Some endpointA2 \<and>
   snd (RemoteEndpointRemoved E_host_fails endpointA nodeGW) =
     Some (Wrapf (Error ''netlink'') ''updateHostNetworkDataplane returned error'' []) \<and>
   remoteEndpoints (handler (fst (RemoteEndpointRemoved E_host_fails endpointA nodeGW))) ''A'' = None"
proof -
  have r1: "snd (RemoteEndpointCreated E_add_fails endpointB nodeGW) =
     Some (Wrapf (Error ''iptables'') ''error adding no-masquerade rules for subnet %q''
             [WStr ''10.2.0.0/24''])"
    by (simp add: RemoteEndpointCreated_def locked_def setRemoteEndpoint_def record_step_def
        call_def Let_def nodeGW_def node0_def endpointA_def endpointB_def E_add_fails_def E_ok_def)
  have r2: "snd (RemoteEndpointUpdated E_host_fails endpointA2 nodeGW) =
     Some (Wrapf (Error ''netlink'') ''updateHostNetworkDataplane returned error'' [])"
    by (simp add: RemoteEndpointUpdated_def locked_def setRemoteEndpoint_def record_step_def
        call_def Let_def nodeGW_def node0_def endpointA_def endpointA2_def E_host_fails_def E_ok_def)
  have r3: "snd (RemoteEndpointRemoved E_host_fails endpointA nodeGW) =
     Some (Wrapf (Error ''netlink'') ''updateHostNetworkDataplane returned error'' [])"
    by (simp add: RemoteEndpointRemoved_def locked_def deleteRemoteEndpoint_def record_step_def
        call_def Let_def nodeGW_def node0_def endpointA_def E_host_fails_def E_ok_def)
  have run1: "RemoteEndpointCreated E_add_fails endpointB nodeGW =
      (fst (RemoteEndpointCreated E_add_fails endpointB nodeGW),
       Some (Wrapf (Error ''iptables'') ''error adding no-masquerade rules for subnet %q''
               [WStr ''10.2.0.0/24'']))"
    using r1 by (simp add: prod_eq_iff)
  have run2: "RemoteEndpointUpdated E_host_fails endpointA2 nodeGW =
      (fst (RemoteEndpointUpdated E_host_fails endpointA2 nodeGW),
       Some (Wrapf (Error ''netlink'') ''updateHostNetworkDataplane returned error'' []))"
    using r2 by (simp add: prod_eq_iff)
  have run3: "RemoteEndpointRemoved E_host_fails endpointA nodeGW =
      (fst (RemoteEndpointRemoved E_host_fails endpointA nodeGW),
       Some (Wrapf (Error ''netlink'') ''updateHostNetworkDataplane returned error'' []))"
    using r3 by (simp add: prod_eq_iff)
  have w1: "remoteEndpoints (handler (fst (RemoteEndpointCreated E_add_fails endpointB nodeGW))) =
      (remoteEndpoints (handler nodeGW))(Name endpointB \<mapsto> endpointB)"
    using endpoint_set_write_survives_error
      [where E = E_add_fails and endpoint = endpointB and s = nodeGW
         and ?s1.0 = "fst (RemoteEndpointCreated E_add_fails endpointB nodeGW)"
         and ?err1.0 = "Wrapf (Error ''iptables'') ''error adding no-masquerade rules for subnet %q''
               [WStr ''10.2.0.0/24'']"] run1
    by blast
  have w2: "remoteEndpoints (handler (fst (RemoteEndpointUpdated E_host_fails endpointA2 nodeGW))) =
      (remoteEndpoints (handler nodeGW))(Name endpointA2 \<mapsto> endpointA2)"
    using endpoint_set_write_survives_error
      [where E = E_host_fails and endpoint = endpointA2 and s = nodeGW
         and ?s2.0 = "fst (RemoteEndpointUpdated E_host_fails endpointA2 nodeGW)"
         and ?err2.0 = "Wrapf (Error ''netlink'') ''updateHostNetworkDataplane returned error'' []"] run2
    by blast
  have w3: "remoteEndpoints (handler (fst (RemoteEndpointRemoved E_host_fails endpointA nodeGW))) =
      (remoteEndpoints (handler nodeGW))(Name endpointA := None)"
    using endpoint_set_write_survives_error
      [where E = E_host_fails and endpoint = endpointA and s = nodeGW
         and ?s3.0 = "fst (RemoteEndpointRemoved E_host_fails endpointA nodeGW)"
         and ?err3.0 = "Wrapf (Error ''netlink'') ''updateHostNetworkDataplane returned error'' []"] run3
    by blast
  show ?thesis
    unfolding w1 w2 w3 r1 r2 r3
    by (simp add: endpointA_def endpointA2_def endpointB_def)
qed

text \<open>
  C3. When \<^verbatim>\<open>cidr.OverlappingSubnets\<close> reports an overlap for the endpoint's subnets,
  \<^verbatim>\<open>RemoteEndpointCreated\<close> and \<^verbatim>\<open>RemoteEndpointUpdated\<close> return nil, leave every field of the
  handler as it was (the endpoint is not stored), and take no step: no lock, no
  reconciliation, no no-masquerade operation. They write one log line.
\<close>

theorem overlapping_endpoint_is_skipped:
  assumes "OverlappingSubnets E (ServiceCIDR (handler s)) (ClusterCIDR (handler s))
             (Subnets (Spec endpoint)) = Some err"
  shows "RemoteEndpointCreated E endpoint s =
           (s\<lparr>logged := logged s @
                 [LoggerErrorf err ''overlappingSubnets for new remote %#v returned error''
                    [LEndpoint endpoint]]\<rparr>, None) \<and>
         RemoteEndpointUpdated E endpoint s =
           (s\<lparr>logged := logged s @
                 [LoggerErrorf err ''overlappingSubnets for new remote %#v returned error''
                    [LEndpoint endpoint]]\<rparr>, None) \<and>
         snd (RemoteEndpointCreated E endpoint s) = None \<and>
         handler (fst (RemoteEndpointCreated E endpoint s)) = handler s \<and>
         trace (fst (RemoteEndpointCreated E endpoint s)) = trace s \<and>
         snd (RemoteEndpointUpdated E endpoint s) = None \<and>
         handler (fst (RemoteEndpointUpdated E endpoint s)) = handler s \<and>
         trace (fst (RemoteEndpointUpdated E endpoint s)) = trace s"
  using assms by (simp add: RemoteEndpointCreated_def RemoteEndpointUpdated_def klog_def)

theorem overlapping_endpoint_is_skipped_witness:
  "OverlappingSubnets E_overlap (ServiceCIDR (handler nodeGW)) (ClusterCIDR (handler nodeGW))
     (Subnets (Spec endpointC)) = Some (Error ''overlapping subnets'') \<and>
   snd (RemoteEndpointCreated E_overlap endpointC nodeGW) = None \<and>
   remoteEndpoints (handler (fst (RemoteEndpointCreated E_overlap endpointC nodeGW))) ''cluster-c'' = None \<and>
   trace (fst (RemoteEndpointCreated E_overlap endpointC nodeGW)) = [] \<and>
   snd (RemoteEndpointUpdated E_overlap endpointC nodeGW) = None \<and>
   remoteEndpoints (handler (fst (RemoteEndpointUpdated E_overlap endpointC nodeGW))) ''cluster-c'' = None \<and>
   trace (fst (RemoteEndpointUpdated E_overlap endpointC nodeGW)) = []"
proof -
  have ov: "OverlappingSubnets E_overlap (ServiceCIDR (handler nodeGW)) (ClusterCIDR (handler nodeGW))
     (Subnets (Spec endpointC)) = Some (Error ''overlapping subnets'')"
    by (simp add: E_overlap_def E_ok_def nodeGW_def node0_def endpointC_def)
  from overlapping_endpoint_is_skipped [OF ov] ov show ?thesis
    by (simp add: nodeGW_def node0_def)
qed

text \<open>
  The other branch of \<^verbatim>\<open>LocalEndpointCreated\<close>, for contrast: for any other backend a failed
  lookup of the default gateway interface ends the process.
\<close>

lemma LocalEndpointCreated_default_route_failure_is_fatal:
  assumes "Backend (Spec endpoint) \<noteq> ''wireguard''"
      and "GetDefaultGatewayInterface_answer E (trace s) = Inl err"
  shows "LocalEndpointCreated K E endpoint s =
           (s\<lparr>trace := trace s @ [GetDefaultGatewayInterface]\<rparr>,
            Fatal ''Unable to find the default interface on host: %s'' [LErrorString err])"
  using assms
  by (simp add: LocalEndpointCreated_def GetDefaultGatewayInterface_call_def record_step_def)

text \<open>
  C8. For a local endpoint of the wireguard backend, \<^verbatim>\<open>LocalEndpointCreated\<close> looks the
  wireguard device up by name. When the lookup fails the method returns the wrapped error
  (the process goes on) and the handler, with its cached routing interface, is unchanged;
  when it succeeds the method stores the interface between lock and unlock and returns nil.
\<close>

theorem LocalEndpointCreated_wireguard:
  assumes "Backend (Spec endpoint) = ''wireguard''"
  shows "(case InterfaceByName_answer E (trace s) (DefaultDeviceName K) of
            Inl err \<Rightarrow>
              LocalEndpointCreated K E endpoint s =
                (s\<lparr>trace := trace s @ [InterfaceByName (DefaultDeviceName K)]\<rparr>,
                 Returned (Some (Wrapf err ''Wireguard interface %s not found on the node''
                                   [WStr (DefaultDeviceName K)])))
          | Inr routingInterface \<Rightarrow>
              LocalEndpointCreated K E endpoint s =
                (s\<lparr>handler := (handler s)\<lparr>cableRoutingInterface := Some routingInterface\<rparr>,
                   trace := trace s @ [InterfaceByName (DefaultDeviceName K), MutexLock,
                                       SetCableRoutingInterface routingInterface, MutexUnlock]\<rparr>,
                 Returned None))"
  using assms
  by (simp add: LocalEndpointCreated_def InterfaceByName_call_def locked_def
      setCableRoutingInterface_def record_step_def split: sum.split)

theorem LocalEndpointCreated_wireguard_witness:
  "Backend (Spec endpointW) = ''wireguard'' \<and>
   LocalEndpointCreated K0 E_no_device endpointW node0 =
     (node0\<lparr>trace := [InterfaceByName ''submariner'']\<rparr>,
      Returned (Some (Wrapf (Error ''no such network interface'')
                        ''Wireguard interface %s not found on the node'' [WStr ''submariner'']))) \<and>
   cableRoutingInterface (handler (fst (LocalEndpointCreated K0 E_no_device endpointW node0))) = None \<and>
   LocalEndpointCreated K0 E_ok endpointW node0 =
     (node0\<lparr>handler := (handler node0)\<lparr>cableRoutingInterface := Some (Interface 7 ''submariner'')\<rparr>,
            trace := [InterfaceByName ''submariner'', MutexLock,
                      SetCableRoutingInterface (Interface 7 ''submariner''), MutexUnlock]\<rparr>,
      Returned None)"
proof -
  have b: "Backend (Spec endpointW) = ''wireguard''" by (simp add: endpointW_def)
  from LocalEndpointCreated_wireguard [OF b, where E = E_no_device and s = node0 and K = K0]
    LocalEndpointCreated_wireguard [OF b, where E = E_ok and s = node0 and K = K0] b
  show ?thesis
    by (simp add: E_no_device_def E_ok_def K0_def node0_def)
qed

text \<open>
  C2 (where the code departs from the claim). In gateway role and with no overlap,
  \<^verbatim>\<open>RemoteEndpointUpdated\<close> stores the endpoint and runs host-network reconciliation and, when
  that succeeds, gateway reconciliation; in neither outcome does it issue a no-masquerade add
  for the endpoint's subnets. \<^verbatim>\<open>RemoteEndpointCreated\<close> on the same input issues one add per
  subnet between the two reconciliations.
\<close>

theorem RemoteEndpointUpdated_adds_no_nat_exemption:
  assumes "OverlappingSubnets E (ServiceCIDR (handler s)) (ClusterCIDR (handler s))
             (Subnets (Spec endpoint)) = None"
      and "isGateway (handler s)"
  shows "RemoteEndpointUpdated E endpoint s =
     (case answer E
             ((handler s)\<lparr>remoteEndpoints := (remoteEndpoints (handler s))(Name endpoint \<mapsto> endpoint)\<rparr>)
             (trace s @ [MutexLock, SetRemoteEndpoint (Name endpoint) endpoint])
             updateHostNetworkDataplane of
        Some err \<Rightarrow>
          (s\<lparr>handler := (handler s)\<lparr>remoteEndpoints := (remoteEndpoints (handler s))(Name endpoint \<mapsto> endpoint)\<rparr>,
             trace := trace s @ [MutexLock, SetRemoteEndpoint (Name endpoint) endpoint,
                                 updateHostNetworkDataplane, MutexUnlock]\<rparr>,
           Some (Wrapf err ''updateHostNetworkDataplane returned error'' []))
      | None \<Rightarrow>
          (s\<lparr>handler := (handler s)\<lparr>remoteEndpoints := (remoteEndpoints (handler s))(Name endpoint \<mapsto> endpoint)\<rparr>,
             trace := trace s @ [MutexLock, SetRemoteEndpoint (Name endpoint) endpoint,
                                 updateHostNetworkDataplane, updateGatewayDataplane, MutexUnlock]\<rparr>,
           answer E
             ((handler s)\<lparr>remoteEndpoints := (remoteEndpoints (handler s))(Name endpoint \<mapsto> endpoint)\<rparr>)
             (trace s @ [MutexLock, SetRemoteEndpoint (Name endpoint) endpoint,
                         updateHostNetworkDataplane])
             updateGatewayDataplane))"
  using assms
  by (simp add: RemoteEndpointUpdated_def locked_def Let_def call_def setRemoteEndpoint_def
      record_step_def split: option.split)

theorem RemoteEndpointUpdated_adds_no_nat_exemption_witness:
  "OverlappingSubnets E_checked (ServiceCIDR (handler nodeGWb)) (ClusterCIDR (handler nodeGWb))
     (Subnets (Spec endpointB2)) = None \<and>
   OverlappingSubnets E_checked (ServiceCIDR (handler nodeGWb)) (ClusterCIDR (handler nodeGWb))
     (Subnets (Spec endpointC)) = Some (Error ''overlapping subnets'') \<and>
   isGateway (handler nodeGWb) \<and>
   RemoteEndpointUpdated E_checked endpointB2 nodeGWb =
     (nodeGWb\<lparr>handler := (handler nodeGWb)\<lparr>remoteEndpoints := [''cluster-b'' \<mapsto> endpointB2]\<rparr>,
              trace := [MutexLock, SetRemoteEndpoint ''cluster-b'' endpointB2,
                        updateHostNetworkDataplane, updateGatewayDataplane, MutexUnlock]\<rparr>, None) \<and>
   trace (fst (RemoteEndpointCreated E_checked endpointB2 nodeGWb)) =
     [MutexLock, SetRemoteEndpoint ''cluster-b'' endpointB2, updateHostNetworkDataplane,
      addNoMasqueradeIPTables ''172.16.0.0/16'', addNoMasqueradeIPTables ''172.17.0.0/16'',
      updateGatewayDataplane, MutexUnlock]"
proof -
  have ov: "OverlappingSubnets E_checked (ServiceCIDR (handler nodeGWb)) (ClusterCIDR (handler nodeGWb))
     (Subnets (Spec endpointB2)) = None"
    by (simp add: E_checked_def E_ok_def endpointB2_def)
  have ovC: "OverlappingSubnets E_checked (ServiceCIDR (handler nodeGWb)) (ClusterCIDR (handler nodeGWb))
     (Subnets (Spec endpointC)) = Some (Error ''overlapping subnets'')"
    by (simp add: E_checked_def E_ok_def endpointC_def)
  have gw: "isGateway (handler nodeGWb)" by (simp add: nodeGWb_def node0_def)
  have created: "trace (fst (RemoteEndpointCreated E_checked endpointB2 nodeGWb)) =
     [MutexLock, SetRemoteEndpoint ''cluster-b'' endpointB2, updateHostNetworkDataplane,
      addNoMasqueradeIPTables ''172.16.0.0/16'', addNoMasqueradeIPTables ''172.17.0.0/16'',
      updateGatewayDataplane, MutexUnlock]"
    by (simp add: RemoteEndpointCreated_def locked_def setRemoteEndpoint_def record_step_def
        call_def Let_def nodeGWb_def node0_def endpointB1_def endpointB2_def E_checked_def E_ok_def)
  from RemoteEndpointUpdated_adds_no_nat_exemption [OF ov gw] ov ovC gw created
  show ?thesis
    by (simp add: E_checked_def E_ok_def nodeGWb_def node0_def endpointB1_def endpointB2_def)
qed

end
